theory Spec2Isabelle
  imports Main "HOL-Library.Sublist" "HOL-Library.AList"
begin

section \<open>Host values used by NativeEditorStorage\<close>

text \<open>
  Exceptions and promise rejections are values of \<open>error\<close>. \<open>FileNotFound\<close> is the
  failure that \<^verbatim>\<open>isFileNotFoundError\<close> recognises, \<open>IOError\<close> any other failure of
  the file system, \<open>SyntaxError\<close> what \<^verbatim>\<open>JSON.parse\<close> throws, \<open>TypeError\<close> a call of
  \<^verbatim>\<open>.map\<close> on a value that has none, \<open>ContentError\<close> a failure of
  \<^verbatim>\<open>model.getContent()\<close>.
\<close>

datatype error =
  FileNotFound | IOError | SyntaxError | TypeError
  | InvalidNotebookFileError string | ContentError

text \<open>
  A \<^verbatim>\<open>Uri\<close> is seen through the three things the source reads from it:
  \<^verbatim>\<open>scheme\<close>, \<^verbatim>\<open>fsPath\<close> and the result of \<^verbatim>\<open>toString()\<close>.
\<close>

record uri =
  scheme :: string
  fsPath :: string
  asString :: string

text \<open>The result of \<^verbatim>\<open>JSON.parse\<close> on notebook text.\<close>

datatype json =
  JNull | JBool bool | JNum int | JStr string
  | JArr "json list" | JObj "(string \<times> json) list"

text \<open>JavaScript truthiness of a parsed value, and of a possibly undefined one.\<close>

fun truthy :: "json \<Rightarrow> bool" where
  "truthy JNull = False"
| "truthy (JBool b) = b"
| "truthy (JNum n) = (n \<noteq> 0)"
| "truthy (JStr s) = (s \<noteq> [])"
| "truthy (JArr xs) = True"
| "truthy (JObj kvs) = True"

fun truthyOpt :: "json option \<Rightarrow> bool" where
  "truthyOpt None = False"
| "truthyOpt (Some j) = truthy j"

text \<open>Property access \<^verbatim>\<open>j.k\<close> on a non-null value; \<open>None\<close> is \<^verbatim>\<open>undefined\<close>.\<close>

fun getProp :: "json \<Rightarrow> string \<Rightarrow> json option" where
  "getProp (JObj kvs) k = map_of kvs k"
| "getProp j k = None"

text \<open>
  A value kept in a hot-exit file or in the legacy global store, at the type the source
  declares for it (\<^verbatim>\<open>{ contents?: string; lastModifiedTimeMs?: number }\<close>), together
  with the oldest format (a plain string), the boolean written under the transfer key,
  and \<^verbatim>\<open>null\<close>.
\<close>

datatype stored_value =
  SNull | SBool bool | SString string
  | SEnvelope "string option" "int option"

fun truthyStored :: "stored_value \<Rightarrow> bool" where
  "truthyStored SNull = False"
| "truthyStored (SBool b) = b"
| "truthyStored (SString s) = (s \<noteq> [])"
| "truthyStored (SEnvelope c t) = True"

fun storedContents :: "stored_value \<Rightarrow> string option" where
  "storedContents (SEnvelope c t) = c"
| "storedContents v = None"

fun storedLastModifiedTimeMs :: "stored_value \<Rightarrow> int option" where
  "storedLastModifiedTimeMs (SEnvelope c t) = t"
| "storedLastModifiedTimeMs v = None"

text \<open>Truthiness of an optional string and of an optional number.\<close>

fun truthyString :: "string option \<Rightarrow> bool" where
  "truthyString None = False"
| "truthyString (Some s) = (s \<noteq> [])"

fun truthyNumber :: "int option \<Rightarrow> bool" where
  "truthyNumber None = False"
| "truthyNumber (Some n) = (n \<noteq> 0)"

text \<open>
  A cancellation token is polled twice by \<^verbatim>\<open>writeToStorage\<close>; the token is the pair of
  values \<^verbatim>\<open>isCancellationRequested\<close> has at those two points.
\<close>

record cancellation_token =
  cancelledAtStart :: bool
  cancelledBeforeWrite :: bool

text \<open>
  \<^verbatim>\<open>INotebookModel\<close> as \<^verbatim>\<open>backup\<close> uses it: a reference to a mutable object. The
  record holds its \<^verbatim>\<open>file\<close> and the identity of the object; what \<^verbatim>\<open>getContent()\<close>
  returns or throws is read from the state at the moment of the call.
\<close>

record inotebook_model =
  modelFile :: uri
  modelId :: string

section \<open>Cells and the model built by the factory\<close>

text \<open>
  Modelled from the spec: \<^verbatim>\<open>CellState\<close> (declared outside this file) has exactly the
  states not-yet-run, running, finished and error.
\<close>

datatype cell_state = Init | Executing | Finished | Error

text \<open>
  The data of a cell: an imported raw cell of the notebook, or the result of
  \<^verbatim>\<open>createCodeCell()\<close>, an empty code cell.
\<close>

datatype cell_content = Imported json | EmptyCodeCell

record cell =
  cell_id :: string
  cell_file :: string
  cell_line :: int
  cell_state :: cell_state
  cell_data :: cell_content

record notebook_model =
  trusted :: bool
  "file" :: uri
  cells :: "cell list"
  notebookJson :: "json option"
  indentAmount :: "string option"
  pythonNumber :: "int option"
  initiallyDirty :: "bool option"

text \<open>
  Modelled from the spec: \<^verbatim>\<open>INotebookModelFactory.createModel\<close> (outside this file)
  "builds a Notebook Model from loader-assembled fields": the model is the record of the
  fields the loader hands over, whichever editor it is built for.
\<close>

definition createModel :: "notebook_model \<Rightarrow> bool \<Rightarrow> notebook_model" where
  "createModel options forVSCodeNotebook = options"

section \<open>Collaborators\<close>

text \<open>
  The collaborators the class is constructed with and the host functions it calls, as
  parameters: \<^verbatim>\<open>isUntitledFile\<close>, \<^verbatim>\<open>crypto.createHash\<close>,
  \<^verbatim>\<open>context.globalStoragePath\<close>, \<^verbatim>\<open>JSON.parse\<close> on notebook text
  (\<open>None\<close> is a syntax error), \<^verbatim>\<open>JSON.parse\<close> on a hot-exit file,
  \<^verbatim>\<open>JSON.stringify({ contents, lastModifiedTimeMs })\<close>, \<^verbatim>\<open>detectIndent(...).indent\<close>,
  \<^verbatim>\<open>trustService.isNotebookTrusted\<close>, the major version of the usable Jupyter
  interpreter, and \<^verbatim>\<open>Identifiers.EmptyFileName\<close>.
\<close>

record env =
  isUntitledFile :: "uri \<Rightarrow> bool"
  createHash :: "string \<Rightarrow> string"
  globalStoragePath :: string
  parseJson :: "string \<Rightarrow> json option"
  parseStored :: "string \<Rightarrow> stored_value option"
  stringifyStored :: "string \<Rightarrow> int \<Rightarrow> string"
  detectIndent :: "string \<Rightarrow> string"
  isNotebookTrusted :: "string \<Rightarrow> string \<Rightarrow> bool"
  usableJupyterPythonMajor :: "int option"
  emptyFileName :: string

section \<open>The state: the instance, the file system, the two mementos, the log\<close>

datatype fs_op =
  CreateDirectory string | WriteFile string string | DeleteFile string

datatype log_entry =
  FailedToDeleteHotExit error
  | ErrorWritingStorage string error
  | ErrorBackingUp error
  | FailedToLoad string error
  | ExceptionReadingStorage string error

text \<open>
  A backup whose \<^verbatim>\<open>storeContentsInHotExitFile\<close> has been started and has not settled:
  the arguments of the call, what \<^verbatim>\<open>model.getContent()\<close> returned or threw and the value
  \<^verbatim>\<open>Date.now()\<close> had when it started (both are read before the first suspension),
  and whether the caller attached the \<^verbatim>\<open>.catch\<close> that logs (the follow-up) or awaits
  the promise (any other caller).
\<close>

record task =
  taskModel :: inotebook_model
  taskCancellation :: cancellation_token
  taskBackupId :: "string option"
  taskContent :: "error + string"
  startedAt :: int
  caught :: bool

text \<open>
  \<open>files\<close> is the content of each path, \<open>mtime\<close> what \<^verbatim>\<open>stat\<close> reports for it,
  \<open>faulty\<close> the paths on which every file-system call fails with an error other than
  "not found", \<open>ops\<close> the mutating calls issued so far. Directories are not tracked,
  and the writes modelled here go to hot-exit files, whose modification time is never
  read, so \<open>mtime\<close> is changed by none of them.
  \<open>traced\<close> is what \<^verbatim>\<open>traceError\<close> received, \<open>rejections\<close> the errors with which
  promises returned to callers of \<^verbatim>\<open>backup\<close> were rejected. \<open>contentOf\<close> is what
  each model object holds now: the result of its \<^verbatim>\<open>getContent()\<close>, changed by the
  editor at any time.
\<close>

record storage =
  backingUp :: bool
  backupRequested :: "(inotebook_model \<times> cancellation_token) option"
  inflight :: "task option"
  files :: "string \<Rightarrow> string option"
  mtime :: "string \<Rightarrow> int option"
  faulty :: "string \<Rightarrow> bool"
  ops :: "fs_op list"
  globalStorage :: "(string \<times> stored_value) list"
  localStorage :: "(string \<times> string) list"
  traced :: "log_entry list"
  rejections :: "error list"
  contentOf :: "string \<Rightarrow> error + string"

text \<open>\<^verbatim>\<open>model.getContent()\<close>, called in state \<open>s\<close>.\<close>

definition getContent :: "storage \<Rightarrow> inotebook_model \<Rightarrow> error + string" where
  "getContent s model = contentOf s (modelId model)"

definition traceError :: "log_entry \<Rightarrow> storage \<Rightarrow> storage" where
  "traceError e s = s\<lparr>traced := traced s @ [e]\<rparr>"

subsection \<open>The file system\<close>

definition readFile :: "storage \<Rightarrow> string \<Rightarrow> error + string" where
  "readFile s p =
     (if faulty s p then Inl IOError
      else (case files s p of None \<Rightarrow> Inl FileNotFound | Some c \<Rightarrow> Inr c))"

definition stat :: "storage \<Rightarrow> string \<Rightarrow> error + int" where
  "stat s p =
     (if faulty s p then Inl IOError
      else (case mtime s p of None \<Rightarrow> Inl FileNotFound | Some t \<Rightarrow> Inr t))"

definition createDirectory :: "storage \<Rightarrow> string \<Rightarrow> error option \<times> storage" where
  "createDirectory s d =
     (let s' = s\<lparr>ops := ops s @ [CreateDirectory d]\<rparr>
      in if faulty s d then (Some IOError, s') else (None, s'))"

definition writeFile :: "storage \<Rightarrow> string \<Rightarrow> string \<Rightarrow> error option \<times> storage" where
  "writeFile s p c =
     (let s' = s\<lparr>ops := ops s @ [WriteFile p c]\<rparr>
      in if faulty s p then (Some IOError, s')
         else (None, s'\<lparr>files := (files s)(p \<mapsto> c)\<rparr>))"

definition deleteFile :: "storage \<Rightarrow> string \<Rightarrow> error option \<times> storage" where
  "deleteFile s p =
     (let s' = s\<lparr>ops := ops s @ [DeleteFile p]\<rparr>
      in if faulty s p then (Some IOError, s')
         else (case files s p of
                 None \<Rightarrow> (Some FileNotFound, s')
               | Some c \<Rightarrow> (None, s'\<lparr>files := (files s)(p := None)\<rparr>)))"

subsection \<open>Paths and keys\<close>

definition KeyPrefix :: string where
  "KeyPrefix = ''notebook-storage-''"

definition NotebookTransferKey :: string where
  "NotebookTransferKey = ''notebook-transfered''"

text \<open>\<^verbatim>\<open>path.join\<close> of a directory and a file name, and \<^verbatim>\<open>path.dirname\<close>, on POSIX
  paths that need no normalisation.\<close>

definition pathJoin :: "string \<Rightarrow> string \<Rightarrow> string" where
  "pathJoin d f = d @ ''/'' @ f"

definition pathDirname :: "string \<Rightarrow> string" where
  "pathDirname p =
     (let r = dropWhile (\<lambda>c. c \<noteq> CHR ''/'') (rev p)
      in if r = [] then ''.''
         else if tl r = [] then ''/''
         else rev (tl r))"

definition getStaticStorageKey :: "uri \<Rightarrow> string" where
  "getStaticStorageKey f = KeyPrefix @ asString f"

definition getHashedFileName :: "env \<Rightarrow> string \<Rightarrow> string" where
  "getHashedFileName env key =
     pathJoin (globalStoragePath env) (createHash env key @ ''.ipynb'')"

text \<open>\<^verbatim>\<open>backupId || this.getStaticStorageKey(file)\<close>: an absent or empty backup id is falsy.\<close>

definition storageKey :: "string option \<Rightarrow> uri \<Rightarrow> string" where
  "storageKey backupId f =
     (case backupId of
        None \<Rightarrow> getStaticStorageKey f
      | Some b \<Rightarrow> if b = [] then getStaticStorageKey f else b)"

section \<open>Writing and deleting hot-exit files\<close>

fun requestedAtStart :: "cancellation_token option \<Rightarrow> bool" where
  "requestedAtStart None = False"
| "requestedAtStart (Some t) = cancelledAtStart t"

fun requestedBeforeWrite :: "cancellation_token option \<Rightarrow> bool" where
  "requestedBeforeWrite None = False"
| "requestedBeforeWrite (Some t) = cancelledBeforeWrite t"

text \<open>
  The delete branch of \<^verbatim>\<open>writeToStorage\<close>: \<^verbatim>\<open>deleteFile(filePath).catch(...)\<close>, which
  logs every failure but "not found".
\<close>

definition deleteHotExitFile :: "storage \<Rightarrow> string \<Rightarrow> storage" where
  "deleteHotExitFile s filePath =
     (case deleteFile s filePath of
        (None, s1) \<Rightarrow> s1
      | (Some ex, s1) \<Rightarrow>
          if ex = FileNotFound then s1 else traceError (FailedToDeleteHotExit ex) s1)"

text \<open>
  The write branch: create the directory, poll the token again, write the file; the
  outer \<^verbatim>\<open>catch\<close> logs a failure of either call.
\<close>

definition writeHotExitFile ::
  "storage \<Rightarrow> string \<Rightarrow> string \<Rightarrow> cancellation_token option \<Rightarrow> storage" where
  "writeHotExitFile s filePath c cancelToken =
     (case createDirectory s (pathDirname filePath) of
        (Some exc, s1) \<Rightarrow> traceError (ErrorWritingStorage filePath exc) s1
      | (None, s1) \<Rightarrow>
          if requestedBeforeWrite cancelToken then s1
          else (case writeFile s1 filePath c of
                  (Some exc, s2) \<Rightarrow> traceError (ErrorWritingStorage filePath exc) s2
                | (None, s2) \<Rightarrow> s2))"

definition writeToStorage ::
  "storage \<Rightarrow> string \<Rightarrow> string option \<Rightarrow> cancellation_token option \<Rightarrow> storage" where
  "writeToStorage s filePath contents cancelToken =
     (if requestedAtStart cancelToken then s
      else (case contents of
              None \<Rightarrow> deleteHotExitFile s filePath
            | Some c \<Rightarrow>
                if c = [] then deleteHotExitFile s filePath
                else writeHotExitFile s filePath c cancelToken))"

text \<open>
  \<^verbatim>\<open>storeContentsInHotExitFile\<close> from the point where \<^verbatim>\<open>model.getContent()\<close> has
  returned or thrown \<open>content\<close>; \<open>now\<close> is the value of \<^verbatim>\<open>Date.now()\<close>. The promise is
  rejected (\<open>Some\<close>) only when \<^verbatim>\<open>getContent()\<close> threw.
\<close>

definition storeSerialized ::
  "env \<Rightarrow> int \<Rightarrow> storage \<Rightarrow> uri \<Rightarrow> error + string \<Rightarrow> cancellation_token option \<Rightarrow>
     string option \<Rightarrow> error option \<times> storage" where
  "storeSerialized env now s f content cancelToken backupId =
     (case content of
        Inl e \<Rightarrow> (Some e, s)
      | Inr contents \<Rightarrow>
          (let key = storageKey backupId f;
               filePath = getHashedFileName env key;
               specialContents =
                 (if contents \<noteq> [] then Some (stringifyStored env contents now) else None)
           in (None, writeToStorage s filePath specialContents cancelToken)))"

text \<open>\<^verbatim>\<open>storeContentsInHotExitFile\<close>, run without interleaving.\<close>

definition storeContentsInHotExitFile ::
  "env \<Rightarrow> int \<Rightarrow> storage \<Rightarrow> inotebook_model \<Rightarrow> cancellation_token option \<Rightarrow>
     string option \<Rightarrow> error option \<times> storage" where
  "storeContentsInHotExitFile env now s model cancelToken backupId =
     storeSerialized env now s (modelFile model) (getContent s model) cancelToken backupId"

definition clearHotExit :: "env \<Rightarrow> storage \<Rightarrow> uri \<Rightarrow> string option \<Rightarrow> storage" where
  "clearHotExit env s f backupId =
     writeToStorage s (getHashedFileName env (storageKey backupId f)) None None"

section \<open>The backup coordinator\<close>

text \<open>
  A call of \<^verbatim>\<open>backup\<close> at time \<open>now\<close>. While a backup is in flight the request (the
  reference to the model and the token) replaces the pending one and the call returns;
  otherwise the store is started, which calls \<^verbatim>\<open>model.getContent()\<close> at once, and is in
  flight until it settles.
\<close>

definition backup ::
  "env \<Rightarrow> int \<Rightarrow> storage \<Rightarrow> inotebook_model \<Rightarrow> cancellation_token \<Rightarrow> string option \<Rightarrow> storage"
  where
  "backup env now s model cancellation backupId =
     (if backingUp s then s\<lparr>backupRequested := Some (model, cancellation)\<rparr>
      else s\<lparr>backingUp := True,
             inflight := Some \<lparr>taskModel = model, taskCancellation = cancellation,
                               taskBackupId = backupId, taskContent = getContent s model,
                               startedAt = now, caught = False\<rparr>\<rparr>)"

text \<open>The \<^verbatim>\<open>.catch\<close> the follow-up attaches to the promise \<^verbatim>\<open>backup\<close> returned.\<close>

definition attachCatch :: "storage \<Rightarrow> storage" where
  "attachCatch s = s\<lparr>inflight := map_option (\<lambda>t. t\<lparr>caught := True\<rparr>) (inflight s)\<rparr>"

text \<open>The \<^verbatim>\<open>finally\<close> callback of \<^verbatim>\<open>backup\<close>, run at time \<open>now\<close>.\<close>

definition backupFinally :: "env \<Rightarrow> int \<Rightarrow> storage \<Rightarrow> storage" where
  "backupFinally env now s =
     (let s1 = s\<lparr>backingUp := False, inflight := None\<rparr>
      in case backupRequested s1 of
           None \<Rightarrow> s1
         | Some (model, cancellation) \<Rightarrow>
             attachCatch (backup env now (s1\<lparr>backupRequested := None\<rparr>) model cancellation None))"

text \<open>
  The in-flight store settles at time \<open>now\<close>: its file-system calls take effect, the
  \<^verbatim>\<open>finally\<close> callback runs, and a rejection goes to the \<^verbatim>\<open>.catch\<close> of the follow-up
  or to the caller that holds the promise. A call of \<^verbatim>\<open>backup\<close> that arrives while the
  store is suspended touches the pending slot only, so the calls of the store are applied
  together when it settles.
\<close>

definition complete :: "env \<Rightarrow> int \<Rightarrow> storage \<Rightarrow> storage" where
  "complete env now s =
     (case inflight s of
        None \<Rightarrow> s
      | Some t \<Rightarrow>
          (case storeSerialized env (startedAt t) s (modelFile (taskModel t)) (taskContent t)
                  (Some (taskCancellation t)) (taskBackupId t) of
             (r, s1) \<Rightarrow>
               (let s2 = backupFinally env now s1
                in case r of
                     None \<Rightarrow> s2
                   | Some e \<Rightarrow>
                       if caught t then traceError (ErrorBackingUp e) s2
                       else s2\<lparr>rejections := rejections s2 @ [e]\<rparr>)))"

text \<open>
  What happens to the coordinator: a call of \<^verbatim>\<open>backup\<close>, the in-flight store
  settling, and the editor changing the content of a model object.
\<close>

datatype event =
  Request int inotebook_model cancellation_token "string option"
  | Complete int
  | Edit string "error + string"

fun step :: "env \<Rightarrow> storage \<Rightarrow> event \<Rightarrow> storage" where
  "step env s (Request now model cancellation backupId) =
     backup env now s model cancellation backupId"
| "step env s (Complete now) = complete env now s"
| "step env s (Edit ident content) = s\<lparr>contentOf := (contentOf s)(ident := content)\<rparr>"

definition run :: "env \<Rightarrow> storage \<Rightarrow> event list \<Rightarrow> storage" where
  "run env s evs = foldl (step env) s evs"

fun isWrite :: "fs_op \<Rightarrow> bool" where
  "isWrite (WriteFile p c) = True"
| "isWrite other = False"

definition writes :: "storage \<Rightarrow> nat" where
  "writes s = length (filter isWrite (ops s))"

section \<open>The migration sweep and the three storage tiers\<close>

text \<open>
  A \<^verbatim>\<open>Memento\<close> is an association list with distinct keys: \<^verbatim>\<open>get(k)\<close> is
  \<open>map_of\<close>, \<^verbatim>\<open>update(k, v)\<close> is \<open>AList.update\<close>, \<^verbatim>\<open>update(k, undefined)\<close> removes
  the key (the contract of \<^verbatim>\<open>Memento.update\<close>), and the keys of the hidden
  \<^verbatim>\<open>_value\<close> object are the keys of the list. No call of a memento fails.
\<close>

definition removeOwned ::
  "(string \<times> stored_value) list \<Rightarrow> string \<Rightarrow> (string \<times> stored_value) list" where
  "removeOwned g k = (if prefix KeyPrefix k then AList.delete k g else g)"

definition transferStorage :: "storage \<Rightarrow> storage" where
  "transferStorage s =
     (let g1 = AList.update NotebookTransferKey (SBool True) (globalStorage s);
          keys = map fst g1
      in s\<lparr>globalStorage := foldl removeOwned g1 keys\<rparr>)"

text \<open>
  The text both \<^verbatim>\<open>getStoredContentsFromFile\<close> and
  \<^verbatim>\<open>getStoredContentsFromGlobalStorage\<close> run on the data they found: the staleness
  check (\<^verbatim>\<open>data && data.lastModifiedTimeMs && file.scheme === 'file'\<close>, then
  \<^verbatim>\<open>stat.mtime > data.lastModifiedTimeMs\<close>) and the return of \<^verbatim>\<open>data.contents\<close>.
  \<open>Inl\<close> is an exception of \<^verbatim>\<open>stat\<close>.
\<close>

definition contentsOfStored :: "stored_value \<Rightarrow> string option" where
  "contentsOfStored d =
     (if truthyStored d \<and> truthyString (storedContents d) then storedContents d else None)"

definition checkStored :: "storage \<Rightarrow> uri \<Rightarrow> stored_value option \<Rightarrow> error + string option" where
  "checkStored s f data =
     (case data of
        None \<Rightarrow> Inr None
      | Some d \<Rightarrow>
          (case (if truthyStored d \<and> truthyNumber (storedLastModifiedTimeMs d)
                      \<and> scheme f = ''file''
                 then storedLastModifiedTimeMs d else None) of
             Some lastModified \<Rightarrow>
               (case stat s (fsPath f) of
                  Inl exc \<Rightarrow> Inl exc
                | Inr mt \<Rightarrow> if mt > lastModified then Inr None else Inr (contentsOfStored d))
           | None \<Rightarrow> Inr (contentsOfStored d)))"

text \<open>The \<^verbatim>\<open>catch\<close> of \<^verbatim>\<open>getStoredContentsFromFile\<close>.\<close>

definition readingFailed :: "storage \<Rightarrow> string \<Rightarrow> error \<Rightarrow> string option \<times> storage" where
  "readingFailed s key exc =
     (None, if exc = FileNotFound then s else traceError (ExceptionReadingStorage key exc) s)"

definition getStoredContentsFromFile ::
  "env \<Rightarrow> storage \<Rightarrow> uri \<Rightarrow> string \<Rightarrow> string option \<times> storage" where
  "getStoredContentsFromFile env s f key =
     (case readFile s (getHashedFileName env key) of
        Inl exc \<Rightarrow> readingFailed s key exc
      | Inr contents \<Rightarrow>
          (case parseStored env contents of
             None \<Rightarrow> readingFailed s key SyntaxError
           | Some data \<Rightarrow>
               (case checkStored s f (Some data) of
                  Inl exc \<Rightarrow> readingFailed s key exc
                | Inr r \<Rightarrow> (r, s))))"

definition getStoredContentsFromGlobalStorage ::
  "env \<Rightarrow> storage \<Rightarrow> uri \<Rightarrow> string \<Rightarrow> string option \<times> storage" where
  "getStoredContentsFromGlobalStorage env s f key =
     (let data = map_of (globalStorage s) key;
          s1 = (case data of
                  None \<Rightarrow> s
                | Some d \<Rightarrow> if truthyStored d then transferStorage s else s)
      in case checkStored s1 f data of
           Inl exc \<Rightarrow> (None, s1)
         | Inr r \<Rightarrow> (r, s1))"

definition getStoredContentsFromLocalStorage ::
  "storage \<Rightarrow> uri \<Rightarrow> string \<Rightarrow> string option \<times> storage" where
  "getStoredContentsFromLocalStorage s f key =
     (case map_of (localStorage s) key of
        None \<Rightarrow> (None, s)
      | Some workspaceData \<Rightarrow>
          if workspaceData = [] then (None, s)
          else (Some workspaceData, s\<lparr>localStorage := AList.delete key (localStorage s)\<rparr>))"

text \<open>\<^verbatim>\<open>if (!result)\<close>: a missing result or an empty string.\<close>

definition getStoredContents ::
  "env \<Rightarrow> storage \<Rightarrow> uri \<Rightarrow> string option \<Rightarrow> string option \<times> storage" where
  "getStoredContents env s f backupId =
     (let key = storageKey backupId f
      in case getStoredContentsFromFile env s f key of
           (result, s1) \<Rightarrow>
             if truthyString result then (result, s1)
             else (case getStoredContentsFromGlobalStorage env s1 f key of
                     (result2, s2) \<Rightarrow>
                       if truthyString result2 then (result2, s2)
                       else getStoredContentsFromLocalStorage s2 f key))"

text \<open>What a tier returns from the outcome of its checks: an exception gives no result.\<close>

definition resultOf :: "error + string option \<Rightarrow> string option" where
  "resultOf r = (case r of Inl exc \<Rightarrow> None | Inr c \<Rightarrow> c)"

section \<open>The model loader\<close>

definition digitChar :: "nat \<Rightarrow> char" where
  "digitChar d = ''0123456789'' ! (d mod 10)"

function showNat :: "nat \<Rightarrow> string" where
  "showNat n = (if n < 10 then [digitChar n] else showNat (n div 10) @ [digitChar n])"
  by pat_completeness auto
termination
  by (relation "measure id") auto

declare showNat.simps [simp del]

definition createEmptyCell :: "env \<Rightarrow> string \<Rightarrow> cell" where
  "createEmptyCell env ident =
     \<lparr>cell_id = ident, cell_file = emptyFileName env, cell_line = 0,
      cell_state = Finished, cell_data = EmptyCodeCell\<rparr>"

definition remapCell :: "env \<Rightarrow> nat \<times> json \<Rightarrow> cell" where
  "remapCell env ic =
     \<lparr>cell_id = ''NotebookImport#'' @ showNat (fst ic), cell_file = emptyFileName env,
      cell_line = 0, cell_state = Finished, cell_data = Imported (snd ic)\<rparr>"

text \<open>\<^verbatim>\<open>x && x.k\<close> on a possibly undefined value.\<close>

fun andProp :: "json option \<Rightarrow> string \<Rightarrow> json option" where
  "andProp None k = None"
| "andProp (Some j) k = (if truthy j then getProp j k else None)"

definition extractPythonMainVersion :: "env \<Rightarrow> json \<Rightarrow> int" where
  "extractPythonMainVersion env notebookData =
     (case andProp (andProp (andProp (andProp (Some notebookData) ''metadata'')
               ''language_info'') ''codemirror_mode'') ''version'' of
        Some (JNum v) \<Rightarrow> v
      | other \<Rightarrow> (case usableJupyterPythonMajor env of Some major \<Rightarrow> major | None \<Rightarrow> 3))"

text \<open>
  \<^verbatim>\<open>contents ? JSON.parse(contents) : undefined\<close>, and the cells of the parsed value:
  the check \<^verbatim>\<open>json && !json.cells\<close> that throws \<^verbatim>\<open>InvalidNotebookFileError\<close>, the
  empty list when there is no (truthy) json, and the \<^verbatim>\<open>TypeError\<close> of
  \<^verbatim>\<open>cells.map\<close> when the cells are not an array.
\<close>

definition parseContents :: "env \<Rightarrow> string option \<Rightarrow> error + json option" where
  "parseContents env contents =
     (case contents of
        None \<Rightarrow> Inr None
      | Some c \<Rightarrow>
          if c = [] then Inr None
          else (case parseJson env c of None \<Rightarrow> Inl SyntaxError | Some j \<Rightarrow> Inr (Some j)))"

definition cellsOfJson :: "uri \<Rightarrow> json option \<Rightarrow> error + json list" where
  "cellsOfJson f json =
     (case json of
        None \<Rightarrow> Inr []
      | Some j \<Rightarrow>
          if \<not> truthy j then Inr []
          else if \<not> truthyOpt (getProp j ''cells'') then Inl (InvalidNotebookFileError (fsPath f))
          else (case getProp j ''cells'' of
                  Some (JArr cs) \<Rightarrow> Inr cs
                | other \<Rightarrow> Inl TypeError))"

text \<open>
  \<^verbatim>\<open>loadContents\<close>; \<open>ident\<close> is the value \<^verbatim>\<open>uuid()\<close> returns when it is called.
  \<open>Inl\<close> is the rejection of the promise.
\<close>

definition loadContents ::
  "env \<Rightarrow> uri \<Rightarrow> string option \<Rightarrow> bool \<Rightarrow> string option \<Rightarrow> bool \<Rightarrow> string \<Rightarrow>
     error + notebook_model" where
  "loadContents env f contents isInitiallyDirty trueContents forVSCodeNotebook ident =
     (case parseContents env contents of
        Inl e \<Rightarrow> Inl e
      | Inr json \<Rightarrow>
          (case cellsOfJson f json of
             Inl e \<Rightarrow> Inl e
           | Inr cs \<Rightarrow>
               (let indent = (if truthyString contents
                              then map_option (detectIndent env) contents else None);
                    remapped0 = map (remapCell env) (enumerate 0 cs);
                    remapped = (if length remapped0 = 0 then [createEmptyCell env ident]
                                else remapped0);
                    pythonNum = (case json of
                                   None \<Rightarrow> 3
                                 | Some j \<Rightarrow> if truthy j then extractPythonMainVersion env j
                                            else 3);
                    isTrusted =
                      (case contents of
                         None \<Rightarrow> True
                       | Some c \<Rightarrow>
                           if isUntitledFile env f then True
                           else isNotebookTrusted env (asString f)
                                  (case (if isInitiallyDirty then trueContents else None) of
                                     Some tc \<Rightarrow> tc
                                   | None \<Rightarrow> c))
                in Inr (createModel
                     \<lparr>trusted = isTrusted, file = f, cells = remapped,
                      notebookJson = json, indentAmount = indent,
                      pythonNumber = Some pythonNum,
                      initiallyDirty = Some isInitiallyDirty\<rparr> forVSCodeNotebook))))"

text \<open>The third argument of \<^verbatim>\<open>load\<close>: \<^verbatim>\<open>options?: boolean | string\<close>.\<close>

datatype load_options = NoOptions | SkipDirtyContents bool | BackupId string

fun skipDirtyContentsOf :: "load_options \<Rightarrow> bool" where
  "skipDirtyContentsOf (SkipDirtyContents b) = b"
| "skipDirtyContentsOf NoOptions = False"
| "skipDirtyContentsOf (BackupId b) = (b \<noteq> [])"

fun backupIdOf :: "load_options \<Rightarrow> uri \<Rightarrow> string option" where
  "backupIdOf (BackupId b) f = Some b"
| "backupIdOf opts f =
     (if skipDirtyContentsOf opts then None else Some (getStaticStorageKey f))"

text \<open>
  \<^verbatim>\<open>loadFromFile\<close>. The \<^verbatim>\<open>try\<close> block awaits \<^verbatim>\<open>readFile\<close>, \<^verbatim>\<open>clearHotExit\<close> and
  \<^verbatim>\<open>getStoredContents\<close>, so their failures reach the \<^verbatim>\<open>catch\<close>; it returns the promise
  of \<^verbatim>\<open>loadContents\<close> without awaiting it (\<^verbatim>\<open>return this.loadContents(...)\<close>), so the
  block is left before that promise settles and its rejection becomes the rejection of
  \<^verbatim>\<open>loadFromFile\<close>.
\<close>

definition loadFromFile ::
  "env \<Rightarrow> storage \<Rightarrow> uri \<Rightarrow> string option \<Rightarrow> load_options \<Rightarrow> bool \<Rightarrow> string \<Rightarrow>
     (error + notebook_model) \<times> storage" where
  "loadFromFile env s f possibleContents opts forVSCodeNotebook ident =
     (case (if isUntitledFile env f then Inr possibleContents
            else (case readFile s (fsPath f) of Inl ex \<Rightarrow> Inl ex | Inr c \<Rightarrow> Inr (Some c))) of
        Inl ex \<Rightarrow>
          (Inr (createModel
                 \<lparr>trusted = True, file = f, cells = [], notebookJson = None,
                  indentAmount = None, pythonNumber = None, initiallyDirty = None\<rparr>
                 forVSCodeNotebook),
           traceError (FailedToLoad (asString f) ex) s)
      | Inr contents \<Rightarrow>
          (let skipDirtyContents = skipDirtyContentsOf opts;
               backupId = backupIdOf opts f;
               s1 = (if skipDirtyContents then clearHotExit env s f backupId else s)
           in case (if skipDirtyContents then (None, s1)
                    else getStoredContents env s1 f backupId) of
                (dirtyContents, s2) \<Rightarrow>
                  if truthyString dirtyContents
                  then (loadContents env f dirtyContents True contents forVSCodeNotebook ident, s2)
                  else (loadContents env f contents False None forVSCodeNotebook ident, s2)))"

definition load ::
  "env \<Rightarrow> storage \<Rightarrow> uri \<Rightarrow> string option \<Rightarrow> load_options \<Rightarrow> bool \<Rightarrow> string \<Rightarrow>
     (error + notebook_model) \<times> storage" where
  "load env s f possibleContents opts forVSCodeNotebook ident =
     loadFromFile env s f possibleContents opts forVSCodeNotebook ident"

section \<open>Bursts of requests\<close>

text \<open>
  A request is a call of \<^verbatim>\<open>backup\<close>: the time of the call and its three arguments.
  While a backup is in flight, requests arrive and models are edited; \<open>lastRequest\<close>
  is the last call of \<^verbatim>\<open>backup\<close> among such events and \<open>edited\<close> what the model
  objects hold after them.
\<close>

type_synonym request = "int \<times> inotebook_model \<times> cancellation_token \<times> string option"

definition requestEvent :: "request \<Rightarrow> event" where
  "requestEvent r = (case r of (now, model, cancellation, backupId) \<Rightarrow>
      Request now model cancellation backupId)"

fun isArrival :: "event \<Rightarrow> bool" where
  "isArrival (Complete now) = False"
| "isArrival other = True"

fun isEdit :: "event \<Rightarrow> bool" where
  "isEdit (Edit ident content) = True"
| "isEdit other = False"

fun requestOf :: "event \<Rightarrow> (inotebook_model \<times> cancellation_token \<times> string option) option"
  where
  "requestOf (Request now model cancellation backupId) = Some (model, cancellation, backupId)"
| "requestOf other = None"

fun lastRequest ::
  "event list \<Rightarrow> (inotebook_model \<times> cancellation_token \<times> string option) option" where
  "lastRequest [] = None"
| "lastRequest (e # es) =
     (case lastRequest es of Some r \<Rightarrow> Some r | None \<Rightarrow> requestOf e)"

fun edited :: "event list \<Rightarrow> (string \<Rightarrow> error + string) \<Rightarrow> string \<Rightarrow> error + string" where
  "edited [] held = held"
| "edited (Edit ident content # es) held = edited es (held(ident := content))"
| "edited (e # es) held = edited es held"

text \<open>What the pending slot holds after such events, given what it held before.\<close>

definition pendingAfter ::
  "event list \<Rightarrow> (inotebook_model \<times> cancellation_token) option \<Rightarrow>
     (inotebook_model \<times> cancellation_token) option" where
  "pendingAfter evs before =
     (case lastRequest evs of
        None \<Rightarrow> before
      | Some (model, cancellation, backupId) \<Rightarrow> Some (model, cancellation))"

section \<open>Concrete instances\<close>

text \<open>
  A small environment and a few states on which the functions are evaluated: the hash
  drops the slashes of a key, an envelope is written as
  \<open>{contents:...,lastModifiedTimeMs:...}\<close>, three notebook texts and two envelope texts
  parse, and the trust service trusts exactly the text \<open>{cells:[]}\<close>. In the states
  below the model object named \<open>c\<close> holds the content \<open>c\<close>, until an edit changes it.
\<close>

definition demoEnv :: env where
  "demoEnv =
     \<lparr>isUntitledFile = (\<lambda>u. scheme u = ''untitled''),
      createHash = filter (\<lambda>ch. ch \<noteq> CHR ''/''),
      globalStoragePath = ''/store'',
      parseJson = map_of
        [(''{}'', JObj []),
         (''{cells:[]}'', JObj [(''cells'', JArr [])]),
         (''{cells:[1]}'', JObj [(''cells'', JArr [JNum 1])])],
      parseStored = map_of
        [(''{contents:{cells:[1]},lastModifiedTimeMs:10}'',
            SEnvelope (Some ''{cells:[1]}'') (Some 10)),
         (''{contents:{cells:[1]},lastModifiedTimeMs:0}'',
            SEnvelope (Some ''{cells:[1]}'') (Some 0))],
      stringifyStored =
        (\<lambda>c t. ''{contents:'' @ c @ '',lastModifiedTimeMs:'' @ showNat (nat t) @ ''}''),
      detectIndent = (\<lambda>t. '' ''),
      isNotebookTrusted = (\<lambda>f c. c = ''{cells:[]}''),
      usableJupyterPythonMajor = None,
      emptyFileName = ''empty''\<rparr>"

definition docUri :: uri where
  "docUri = \<lparr>scheme = ''file'', fsPath = ''/nb/a.ipynb'', asString = ''file:///nb/a.ipynb''\<rparr>"

definition modelWith :: "string \<Rightarrow> inotebook_model" where
  "modelWith c = \<lparr>modelFile = docUri, modelId = c\<rparr>"

definition live :: cancellation_token where
  "live = \<lparr>cancelledAtStart = False, cancelledBeforeWrite = False\<rparr>"

definition cancelled :: cancellation_token where
  "cancelled = \<lparr>cancelledAtStart = True, cancelledBeforeWrite = True\<rparr>"

definition idleStorage :: storage where
  "idleStorage =
     \<lparr>backingUp = False, backupRequested = None, inflight = None,
      files = (\<lambda>p. None), mtime = (\<lambda>p. None), faulty = (\<lambda>p. False), ops = [],
      globalStorage = [], localStorage = [], traced = [], rejections = [],
      contentOf = (\<lambda>ident. Inr ident)\<rparr>"

definition backedUpStorage :: storage where
  "backedUpStorage =
     idleStorage\<lparr>files := [getHashedFileName demoEnv (getStaticStorageKey docUri) \<mapsto>
                    stringifyStored demoEnv ''A'' 0]\<rparr>"


definition staleFileStorage :: storage where
  "staleFileStorage =
     idleStorage\<lparr>files := [getHashedFileName demoEnv (getStaticStorageKey docUri) \<mapsto>
                    ''{contents:{cells:[1]},lastModifiedTimeMs:10}''],
                 mtime := [fsPath docUri \<mapsto> 20]\<rparr>"

definition freshFileStorage :: storage where
  "freshFileStorage =
     idleStorage\<lparr>files := [getHashedFileName demoEnv (getStaticStorageKey docUri) \<mapsto>
                    ''{contents:{cells:[1]},lastModifiedTimeMs:10}'',
                  fsPath docUri \<mapsto> ''{cells:[]}''],
                 mtime := [fsPath docUri \<mapsto> 5],
                 globalStorage :=
                   [(getStaticStorageKey docUri, SEnvelope (Some ''{cells:[]}'') (Some 10))],
                 localStorage := [(getStaticStorageKey docUri, ''{}'')]\<rparr>"

definition zeroStampStorage :: storage where
  "zeroStampStorage =
     idleStorage\<lparr>files := [getHashedFileName demoEnv (getStaticStorageKey docUri) \<mapsto>
                    ''{contents:{cells:[1]},lastModifiedTimeMs:0}''],
                 mtime := [fsPath docUri \<mapsto> 5]\<rparr>"

definition staleWithWorkspaceStorage :: storage where
  "staleWithWorkspaceStorage =
     staleFileStorage\<lparr>localStorage := [(getStaticStorageKey docUri, ''{cells:[]}'')]\<rparr>"

definition staleLegacyStorage :: storage where
  "staleLegacyStorage =
     idleStorage\<lparr>globalStorage :=
                   [(getStaticStorageKey docUri, SEnvelope (Some ''{cells:[1]}'') (Some 10))],
                 mtime := [fsPath docUri \<mapsto> 20]\<rparr>"

definition staleBothStorage :: storage where
  "staleBothStorage =
     staleFileStorage\<lparr>globalStorage :=
       [(getStaticStorageKey docUri, SEnvelope (Some ''{cells:[]}'') (Some 15))]\<rparr>"

definition freshLegacyStorage :: storage where
  "freshLegacyStorage =
     idleStorage\<lparr>globalStorage :=
                   [(getStaticStorageKey docUri, SEnvelope (Some ''{cells:[1]}'') (Some 10))],
                 mtime := [fsPath docUri \<mapsto> 5]\<rparr>"

definition workspaceStorage :: storage where
  "workspaceStorage =
     idleStorage\<lparr>localStorage := [(getStaticStorageKey docUri, ''{cells:[]}'')]\<rparr>"

definition backupIdStorage :: storage where
  "backupIdStorage =
     idleStorage\<lparr>files := [getHashedFileName demoEnv ''a.ipynb-1'' \<mapsto>
                    ''{contents:{cells:[1]},lastModifiedTimeMs:10}'',
                  fsPath docUri \<mapsto> ''{cells:[]}''],
                 mtime := [fsPath docUri \<mapsto> 5]\<rparr>"

definition invalidStorage :: storage where
  "invalidStorage = idleStorage\<lparr>files := [fsPath docUri \<mapsto> ''{}'']\<rparr>"

definition garbageStorage :: storage where
  "garbageStorage = idleStorage\<lparr>files := [fsPath docUri \<mapsto> ''not json'']\<rparr>"

definition emptyNotebookStorage :: storage where
  "emptyNotebookStorage = idleStorage\<lparr>files := [fsPath docUri \<mapsto> ''{cells:[]}'']\<rparr>"

section \<open>Properties of the backup coordinator\<close>

subsection \<open>Runs, frames and single steps\<close>

lemma run_Nil: "run env s [] = s"
  by (simp add: run_def)

lemma run_Cons: "run env s (e # es) = run env (step env s e) es"
  by (simp add: run_def)

lemma run_append: "run env s (es @ fs) = run env (run env s es) fs"
  by (simp add: run_def)

lemma pendingAfter_Nil: "pendingAfter [] before = before"
  by (simp add: pendingAfter_def)

lemma pendingAfter_Request:
  "pendingAfter (Request now model cancellation backupId # es) before =
     pendingAfter es (Some (model, cancellation))"
  by (simp add: pendingAfter_def split: option.splits)

lemma pendingAfter_Edit: "pendingAfter (Edit ident content # es) before = pendingAfter es before"
  by (simp add: pendingAfter_def split: option.splits)

lemma pendingAfter_last:
  "lastRequest evs = Some (model, cancellation, backupId) \<Longrightarrow>
     pendingAfter evs before = Some (model, cancellation)"
  by (simp add: pendingAfter_def)

text \<open>
  While a backup is in flight, calls of \<^verbatim>\<open>backup\<close> and edits change the pending slot
  and the contents of the models, and nothing else.
\<close>

lemma arrivals_run:
  "backingUp s \<Longrightarrow> \<forall>e \<in> set evs. isArrival e \<Longrightarrow>
     run env s evs =
       s\<lparr>backupRequested := pendingAfter evs (backupRequested s),
         contentOf := edited evs (contentOf s)\<rparr>"
proof (induction evs arbitrary: s)
  case Nil
  then show ?case by (simp add: run_Nil pendingAfter_Nil)
next
  case (Cons e es)
  show ?case
  proof (cases e)
    case (Request now model cancellation backupId)
    let ?s' = "s\<lparr>backupRequested := Some (model, cancellation)\<rparr>"
    have st: "backup env now s model cancellation backupId = ?s'"
      using Cons.prems(1) by (simp add: backup_def)
    have "backingUp ?s'" using Cons.prems(1) by simp
    moreover have "\<forall>e \<in> set es. isArrival e" using Cons.prems(2) by simp
    ultimately have "run env ?s' es =
        ?s'\<lparr>backupRequested := pendingAfter es (backupRequested ?s'),
            contentOf := edited es (contentOf ?s')\<rparr>"
      by (rule Cons.IH)
    then show ?thesis
      by (simp add: run_Cons st Request pendingAfter_Request fun_upd_def)
  next
    case (Complete now)
    then show ?thesis using Cons.prems(2) by simp
  next
    case (Edit ident content)
    let ?s' = "s\<lparr>contentOf := (contentOf s)(ident := content)\<rparr>"
    have "backingUp ?s'" using Cons.prems(1) by simp
    moreover have "\<forall>e \<in> set es. isArrival e" using Cons.prems(2) by simp
    ultimately have "run env ?s' es =
        ?s'\<lparr>backupRequested := pendingAfter es (backupRequested ?s'),
            contentOf := edited es (contentOf ?s')\<rparr>"
      by (rule Cons.IH)
    then show ?thesis
      by (simp add: run_Cons Edit pendingAfter_Edit fun_upd_def)
  qed
qed

lemma edits_run:
  "\<forall>e \<in> set eds. isEdit e \<Longrightarrow>
     run env s eds = s\<lparr>contentOf := edited eds (contentOf s)\<rparr>"
proof (induction eds arbitrary: s)
  case Nil
  then show ?case by (simp add: run_Nil)
next
  case (Cons e es)
  from Cons.prems obtain ident content where e: "e = Edit ident content"
    by (cases e) simp_all
  have "\<forall>e \<in> set es. isEdit e" using Cons.prems by simp
  from Cons.IH [OF this, of "s\<lparr>contentOf := (contentOf s)(ident := content)\<rparr>"]
  show ?case by (simp add: run_Cons e fun_upd_def)
qed

lemma deleteHotExitFile_frame:
  "backingUp (deleteHotExitFile s p) = backingUp s \<and>
   backupRequested (deleteHotExitFile s p) = backupRequested s \<and>
   inflight (deleteHotExitFile s p) = inflight s \<and>
   faulty (deleteHotExitFile s p) = faulty s \<and>
   rejections (deleteHotExitFile s p) = rejections s \<and>
   contentOf (deleteHotExitFile s p) = contentOf s \<and>
   writes (deleteHotExitFile s p) = writes s"
  by (simp add: deleteHotExitFile_def deleteFile_def traceError_def writes_def Let_def
      split: option.splits)

lemma writeHotExitFile_frame:
  "backingUp (writeHotExitFile s p c tok) = backingUp s \<and>
   backupRequested (writeHotExitFile s p c tok) = backupRequested s \<and>
   inflight (writeHotExitFile s p c tok) = inflight s \<and>
   faulty (writeHotExitFile s p c tok) = faulty s \<and>
   rejections (writeHotExitFile s p c tok) = rejections s \<and>
   contentOf (writeHotExitFile s p c tok) = contentOf s \<and>
   writes (writeHotExitFile s p c tok) \<le> writes s + 1"
  by (simp add: writeHotExitFile_def createDirectory_def writeFile_def traceError_def
      writes_def Let_def split: option.splits)

lemma writeToStorage_frame:
  "backingUp (writeToStorage s p c tok) = backingUp s \<and>
   backupRequested (writeToStorage s p c tok) = backupRequested s \<and>
   inflight (writeToStorage s p c tok) = inflight s \<and>
   faulty (writeToStorage s p c tok) = faulty s \<and>
   rejections (writeToStorage s p c tok) = rejections s \<and>
   contentOf (writeToStorage s p c tok) = contentOf s \<and>
   writes (writeToStorage s p c tok) \<le> writes s + 1"
  using deleteHotExitFile_frame [of s p] writeHotExitFile_frame [of s p _ tok]
  by (simp add: writeToStorage_def split: option.splits)

lemma store_frame:
  assumes "storeSerialized env now s f content tok bid = (r, s')"
  shows "backingUp s' = backingUp s \<and> backupRequested s' = backupRequested s \<and>
         inflight s' = inflight s \<and> faulty s' = faulty s \<and>
         rejections s' = rejections s \<and> contentOf s' = contentOf s \<and>
         writes s' \<le> writes s + 1"
proof (cases content)
  case (Inl e)
  with assms show ?thesis by (simp add: storeSerialized_def)
next
  case (Inr c)
  with assms obtain p sc where "s' = writeToStorage s p sc tok"
    by (auto simp: storeSerialized_def Let_def)
  then show ?thesis using writeToStorage_frame [of s p sc tok] by simp
qed

lemma backupFinally_frame:
  "files (backupFinally env now s) = files s \<and> ops (backupFinally env now s) = ops s \<and>
   faulty (backupFinally env now s) = faulty s \<and>
   traced (backupFinally env now s) = traced s \<and>
   rejections (backupFinally env now s) = rejections s \<and>
   contentOf (backupFinally env now s) = contentOf s"
  by (simp add: backupFinally_def backup_def attachCatch_def Let_def split: option.splits)

lemma backupFinally_pending:
  assumes "backupRequested s = Some (m, c)"
  shows "backupFinally env now s =
          s\<lparr>backingUp := True, backupRequested := None,
            inflight := Some \<lparr>taskModel = m, taskCancellation = c, taskBackupId = None,
                              taskContent = getContent s m, startedAt = now,
                              caught = True\<rparr>\<rparr>"
  using assms by (simp add: backupFinally_def backup_def attachCatch_def getContent_def)

lemma backupFinally_idle:
  assumes "backupRequested s = None"
  shows "backupFinally env now s = s\<lparr>backingUp := False, inflight := None\<rparr>"
  using assms by (simp add: backupFinally_def)

lemma complete_unfold:
  assumes "inflight s = Some t"
    and "storeSerialized env (startedAt t) s (modelFile (taskModel t)) (taskContent t)
           (Some (taskCancellation t)) (taskBackupId t) = (r, s1)"
  shows "complete env now s =
     (case r of None \<Rightarrow> backupFinally env now s1
      | Some e \<Rightarrow> if caught t then traceError (ErrorBackingUp e) (backupFinally env now s1)
                  else (backupFinally env now s1)\<lparr>rejections := rejections (backupFinally env now s1) @ [e]\<rparr>)"
  using assms by (simp add: complete_def Let_def)

lemma complete_writes: "writes (complete env now s) \<le> writes s + 1"
proof (cases "inflight s")
  case None
  then show ?thesis by (simp add: complete_def)
next
  case (Some t)
  obtain r s1 where st: "storeSerialized env (startedAt t) s (modelFile (taskModel t))
           (taskContent t) (Some (taskCancellation t)) (taskBackupId t) = (r, s1)"
    by (cases "storeSerialized env (startedAt t) s (modelFile (taskModel t))
           (taskContent t) (Some (taskCancellation t)) (taskBackupId t)")
  have "writes (complete env now s) = writes s1"
    using backupFinally_frame [of env now s1]
    by (simp add: complete_unfold [OF Some st] writes_def traceError_def split: option.splits)
  with store_frame [OF st] show ?thesis by simp
qed

lemma complete_pending:
  assumes "inflight s = Some t" and "backupRequested s = Some (m, c)"
  shows "inflight (complete env now s) =
           Some \<lparr>taskModel = m, taskCancellation = c, taskBackupId = None,
                 taskContent = getContent s m, startedAt = now, caught = True\<rparr> \<and>
         backupRequested (complete env now s) = None \<and>
         backingUp (complete env now s) \<and>
         faulty (complete env now s) = faulty s"
proof -
  obtain r s1 where st: "storeSerialized env (startedAt t) s (modelFile (taskModel t))
           (taskContent t) (Some (taskCancellation t)) (taskBackupId t) = (r, s1)"
    by (cases "storeSerialized env (startedAt t) s (modelFile (taskModel t))
           (taskContent t) (Some (taskCancellation t)) (taskBackupId t)")
  have "backupRequested s1 = Some (m, c)" "faulty s1 = faulty s" "contentOf s1 = contentOf s"
    using store_frame [OF st] assms(2) by simp_all
  moreover from this have "getContent s1 m = getContent s m"
    by (simp add: getContent_def)
  ultimately show ?thesis
    by (simp add: complete_unfold [OF assms(1) st] backupFinally_pending traceError_def
        split: option.splits)
qed

lemma complete_last:
  assumes "inflight s = Some t" and "backupRequested s = None"
    and "storeSerialized env (startedAt t) s (modelFile (taskModel t)) (taskContent t)
           (Some (taskCancellation t)) (taskBackupId t) = (r, s1)"
  shows "inflight (complete env now s) = None \<and>
         backupRequested (complete env now s) = None \<and>
         \<not> backingUp (complete env now s) \<and>
         files (complete env now s) = files s1"
proof -
  have "backupRequested s1 = None"
    using store_frame [OF assms(3)] assms(2) by simp
  then show ?thesis
    by (simp add: complete_unfold [OF assms(1) assms(3)] backupFinally_idle traceError_def
        split: option.splits)
qed

lemma store_writes_envelope:
  assumes "contents \<noteq> []"
    and "stringifyStored env contents now \<noteq> []"
    and "\<not> cancelledAtStart tok" and "\<not> cancelledBeforeWrite tok"
    and "\<not> faulty s (pathDirname (getHashedFileName env (storageKey bid f)))"
    and "\<not> faulty s (getHashedFileName env (storageKey bid f))"
  shows "files (snd (storeSerialized env now s f (Inr contents) (Some tok) bid))
           (getHashedFileName env (storageKey bid f)) =
         Some (stringifyStored env contents now)"
  using assms
  by (simp add: storeSerialized_def writeToStorage_def writeHotExitFile_def
      createDirectory_def writeFile_def Let_def)

lemma backup_idle:
  "\<not> backingUp s \<Longrightarrow>
     backup env now s model cancellation backupId =
       s\<lparr>backingUp := True,
         inflight := Some \<lparr>taskModel = model, taskCancellation = cancellation,
                           taskBackupId = backupId, taskContent = getContent s model,
                           startedAt = now, caught = False\<rparr>\<rparr>"
  by (simp add: backup_def)

lemmas demo_defs = demoEnv_def docUri_def modelWith_def live_def cancelled_def idleStorage_def
  showNat.simps digitChar_def
lemmas backup_defs = run_def requestEvent_def backup_def complete_def backupFinally_def
  attachCatch_def storeContentsInHotExitFile_def storeSerialized_def getContent_def
  writeToStorage_def writeHotExitFile_def
  deleteHotExitFile_def createDirectory_def writeFile_def deleteFile_def traceError_def
  storageKey_def getStaticStorageKey_def getHashedFileName_def pathJoin_def pathDirname_def
  KeyPrefix_def Let_def

subsection \<open>Coalescing of a burst\<close>

text \<open>
  Claim C1, as amended. A backup \<open>(m0, c0, b0)\<close> is started on an idle coordinator.
  While it is in flight the events \<open>evs\<close> happen, calls of \<^verbatim>\<open>backup\<close> and edits of
  models in any order, the last call being \<open>(m, c, b)\<close>. After every prefix of \<open>evs\<close> the
  pending slot holds the model and token of the last call so far (what it held before,
  if there was no call yet), so after the burst it holds \<open>(m, c)\<close>, and no write has
  happened. Then the in-flight store settles and starts the follow-up (\<open>Complete t1\<close>),
  models are edited again (\<open>eds\<close>), and the follow-up settles (\<open>Complete t2\<close>): at most
  two \<^verbatim>\<open>writeFile\<close> calls have been issued in all, nothing is pending and the
  coordinator is idle. The pending slot keeps a reference to the model, and the
  follow-up calls \<^verbatim>\<open>getContent()\<close> when it starts: if the last call carried no backup
  id, its token is cancelled at neither poll, the content that its model holds when the
  follow-up starts (after the edits of \<open>evs\<close>, before those of \<open>eds\<close>) is a non-empty
  string whose envelope is a non-empty text, and the file system does not fail on the
  hot-exit directory and file, then the file under the hash of the document's static
  storage key holds the envelope of that content, stamped with the time the follow-up
  started.
\<close>

theorem burst_is_coalesced:
  assumes idle: "\<not> backingUp s"
    and burst: "\<forall>e \<in> set evs. isArrival e"
    and lst: "lastRequest evs = Some (m, c, b)"
    and later: "\<forall>e \<in> set eds. isEdit e"
  shows
    "(\<forall>k. k \<le> length evs \<longrightarrow>
        backupRequested (run env (backup env t0 s m0 c0 b0) (take k evs)) =
          pendingAfter (take k evs) (backupRequested s)) \<and>
     backupRequested (run env (backup env t0 s m0 c0 b0) evs) = Some (m, c) \<and>
     writes (run env (backup env t0 s m0 c0 b0) evs) = writes s \<and>
     writes (run env (backup env t0 s m0 c0 b0)
               (evs @ [Complete t1] @ eds @ [Complete t2])) \<le> writes s + 2 \<and>
     backupRequested (run env (backup env t0 s m0 c0 b0)
               (evs @ [Complete t1] @ eds @ [Complete t2])) = None \<and>
     \<not> backingUp (run env (backup env t0 s m0 c0 b0)
               (evs @ [Complete t1] @ eds @ [Complete t2])) \<and>
     (b = None \<and> edited evs (contentOf s) (modelId m) = Inr contents \<and> contents \<noteq> [] \<and>
      stringifyStored env contents t1 \<noteq> [] \<and>
      \<not> cancelledAtStart c \<and> \<not> cancelledBeforeWrite c \<and>
      \<not> faulty s (pathDirname (getHashedFileName env (getStaticStorageKey (modelFile m)))) \<and>
      \<not> faulty s (getHashedFileName env (getStaticStorageKey (modelFile m)))
      \<longrightarrow>
      files (run env (backup env t0 s m0 c0 b0)
               (evs @ [Complete t1] @ eds @ [Complete t2]))
        (getHashedFileName env (getStaticStorageKey (modelFile m))) =
      Some (stringifyStored env contents t1))"
proof -
  let ?t0 = "\<lparr>taskModel = m0, taskCancellation = c0, taskBackupId = b0,
              taskContent = getContent s m0, startedAt = t0, caught = False\<rparr>"
  let ?p = "getHashedFileName env (getStaticStorageKey (modelFile m))"
  let ?sa = "backup env t0 s m0 c0 b0"
  let ?sb = "run env ?sa evs"
  let ?sc = "complete env t1 ?sb"
  let ?se = "run env ?sc eds"
  let ?sd = "complete env t2 ?se"
  let ?t1 = "\<lparr>taskModel = m, taskCancellation = c, taskBackupId = None,
              taskContent = getContent ?sb m, startedAt = t1, caught = True\<rparr>"
  have sa: "?sa = s\<lparr>backingUp := True, inflight := Some ?t0\<rparr>"
    using idle by (rule backup_idle)
  have busy: "backingUp ?sa" by (simp add: sa)
  have pa: "backupRequested ?sa = backupRequested s" by (subst sa) simp
  have ca: "contentOf ?sa = contentOf s" by (subst sa) simp
  have oa: "ops ?sa = ops s" by (subst sa) simp
  have ia: "inflight ?sa = Some ?t0" by (subst sa) simp
  have fa: "faulty ?sa = faulty s" by (subst sa) simp
  have sb: "?sb = ?sa\<lparr>backupRequested := pendingAfter evs (backupRequested ?sa),
                      contentOf := edited evs (contentOf ?sa)\<rparr>"
    using busy burst by (rule arrivals_run)
  have full: "run env ?sa (evs @ [Complete t1] @ eds @ [Complete t2]) = ?sd"
    by (simp add: run_append run_Cons run_Nil)
  have prefixes: "\<forall>k. k \<le> length evs \<longrightarrow>
        backupRequested (run env ?sa (take k evs)) =
          pendingAfter (take k evs) (backupRequested s)"
  proof (intro allI impI)
    fix k assume "k \<le> length evs"
    have "\<forall>e \<in> set (take k evs). isArrival e"
      using burst by (auto dest: in_set_takeD)
    with busy have "run env ?sa (take k evs) =
        ?sa\<lparr>backupRequested := pendingAfter (take k evs) (backupRequested ?sa),
            contentOf := edited (take k evs) (contentOf ?sa)\<rparr>"
      by (rule arrivals_run)
    then have "backupRequested (run env ?sa (take k evs)) =
        pendingAfter (take k evs) (backupRequested ?sa)"
      by simp
    then show "backupRequested (run env ?sa (take k evs)) =
          pendingAfter (take k evs) (backupRequested s)"
      by (simp only: pa)
  qed
  have "backupRequested ?sb = pendingAfter evs (backupRequested ?sa)" by (subst sb) simp
  then have c1: "backupRequested ?sb = Some (m, c)"
    by (simp only: pendingAfter_last [OF lst])
  have "ops ?sb = ops ?sa" by (subst sb) simp
  then have c2: "writes ?sb = writes s" by (simp add: writes_def oa)
  have "inflight ?sb = inflight ?sa" by (subst sb) simp
  then have infl: "inflight ?sb = Some ?t0" by (simp only: ia)
  have "faulty ?sb = faulty ?sa" by (subst sb) simp
  then have fb: "faulty ?sb = faulty s" by (simp only: fa)
  have "contentOf ?sb = edited evs (contentOf ?sa)" by (subst sb) simp
  then have cb: "getContent ?sb m = edited evs (contentOf s) (modelId m)"
    by (simp add: getContent_def ca)
  note cp = complete_pending [OF infl c1, of env t1]
  have se: "?se = ?sc\<lparr>contentOf := edited eds (contentOf ?sc)\<rparr>"
    using later by (rule edits_run)
  have ie: "inflight ?se = Some ?t1" by (subst se) (simp add: cp)
  have pe: "backupRequested ?se = None" by (subst se) (simp add: cp)
  have fe: "faulty ?se = faulty s" by (subst se) (simp add: cp fb)
  have "ops ?se = ops ?sc" by (subst se) simp
  then have we: "writes ?se = writes ?sc" by (simp add: writes_def)
  have w: "writes ?sd \<le> writes s + 2"
    using complete_writes [of env t2 ?se] complete_writes [of env t1 ?sb] c2 we by simp
  obtain r s1 where st: "storeSerialized env (startedAt ?t1) ?se (modelFile (taskModel ?t1))
        (taskContent ?t1) (Some (taskCancellation ?t1)) (taskBackupId ?t1) = (r, s1)"
    by (cases "storeSerialized env (startedAt ?t1) ?se (modelFile (taskModel ?t1))
        (taskContent ?t1) (Some (taskCancellation ?t1)) (taskBackupId ?t1)")
  have cl: "inflight ?sd = None \<and> backupRequested ?sd = None \<and> \<not> backingUp ?sd \<and>
            files ?sd = files s1"
    using ie pe by (rule complete_last [OF _ _ st])
  have content: "files ?sd ?p = Some (stringifyStored env contents t1)"
    if h: "b = None \<and> edited evs (contentOf s) (modelId m) = Inr contents \<and> contents \<noteq> [] \<and>
      stringifyStored env contents t1 \<noteq> [] \<and>
      \<not> cancelledAtStart c \<and> \<not> cancelledBeforeWrite c \<and>
      \<not> faulty s (pathDirname ?p) \<and> \<not> faulty s ?p"
  proof -
    have key: "storageKey None (modelFile m) = getStaticStorageKey (modelFile m)"
      by (simp add: storageKey_def)
    have tc: "getContent ?sb m = Inr contents" using h cb by simp
    have "files (snd (storeSerialized env t1 ?se (modelFile m) (Inr contents) (Some c) None))
            (getHashedFileName env (storageKey None (modelFile m))) =
          Some (stringifyStored env contents t1)"
      using h by (intro store_writes_envelope) (simp_all add: fe key)
    moreover have "snd (storeSerialized env t1 ?se (modelFile m) (Inr contents) (Some c) None) = s1"
      using st tc by simp
    ultimately show ?thesis using cl by (simp add: key)
  qed
  show ?thesis
    unfolding full using prefixes c1 c2 w cl content by blast
qed

theorem burst_is_coalesced_witness:
  "backupRequested (run demoEnv (backup demoEnv 0 idleStorage (modelWith ''A'') live None)
       (take 1 [Request 1 (modelWith ''B'') live None, Edit ''C'' (Inr ''C1''),
                Request 2 (modelWith ''C'') live None, Edit ''C'' (Inr ''C2'')])) =
     Some (modelWith ''B'', live) \<and>
   files (run demoEnv (backup demoEnv 0 idleStorage (modelWith ''A'') live None)
       ([Request 1 (modelWith ''B'') live None, Edit ''C'' (Inr ''C1''),
         Request 2 (modelWith ''C'') live None, Edit ''C'' (Inr ''C2'')]
          @ [Complete 3] @ [Edit ''C'' (Inr ''C3'')] @ [Complete 4]))
     (getHashedFileName demoEnv (getStaticStorageKey docUri)) =
   Some (stringifyStored demoEnv ''C2'' 3) \<and>
   writes (run demoEnv (backup demoEnv 0 idleStorage (modelWith ''A'') live None)
       ([Request 1 (modelWith ''B'') live None, Edit ''C'' (Inr ''C1''),
         Request 2 (modelWith ''C'') live None, Edit ''C'' (Inr ''C2'')]
          @ [Complete 3] @ [Edit ''C'' (Inr ''C3'')] @ [Complete 4])) \<le> 2"
proof -
  let ?evs = "[Request 1 (modelWith ''B'') live None, Edit ''C'' (Inr ''C1''),
               Request 2 (modelWith ''C'') live None, Edit ''C'' (Inr ''C2'')]"
  let ?eds = "[Edit ''C'' (Inr ''C3'')]"
  have h1: "\<not> backingUp idleStorage" by (simp add: idleStorage_def)
  have h2: "\<forall>e \<in> set ?evs. isArrival e" by simp
  have h3: "lastRequest ?evs = Some (modelWith ''C'', live, None)" by simp
  have h4: "\<forall>e \<in> set ?eds. isEdit e" by simp
  note th = burst_is_coalesced [OF h1 h2 h3 h4, where env = demoEnv and ?t0.0 = 0
      and ?m0.0 = "modelWith ''A''" and ?c0.0 = live and ?b0.0 = None and ?t1.0 = 3 and ?t2.0 = 4
      and contents = "''C2''"]
  have pre: "(None :: string option) = None \<and>
      edited ?evs (contentOf idleStorage) (modelId (modelWith ''C'')) = Inr ''C2'' \<and>
      ''C2'' \<noteq> [] \<and> stringifyStored demoEnv ''C2'' 3 \<noteq> [] \<and>
      \<not> cancelledAtStart live \<and> \<not> cancelledBeforeWrite live \<and>
      \<not> faulty idleStorage (pathDirname (getHashedFileName demoEnv
             (getStaticStorageKey (modelFile (modelWith ''C''))))) \<and>
      \<not> faulty idleStorage (getHashedFileName demoEnv (getStaticStorageKey (modelFile (modelWith ''C''))))"
    by (simp add: demo_defs)
  have w0: "writes idleStorage + 2 = 2" by (simp add: writes_def idleStorage_def)
  have mf: "modelFile (modelWith ''C'') = docUri" by (simp add: modelWith_def)
  have k: "(1::nat) \<le> length ?evs" by simp
  have pk: "pendingAfter (take 1 ?evs) (backupRequested idleStorage) = Some (modelWith ''B'', live)"
    by (simp add: pendingAfter_def)
  note th1 = th [THEN conjunct1, rule_format, OF k]
  note th2 = th [THEN conjunct2]
  from th1 have first: "backupRequested (run demoEnv (backup demoEnv 0 idleStorage (modelWith ''A'') live None)
       (take 1 ?evs)) = Some (modelWith ''B'', live)"
    by (simp only: pk)
  from th2 pre have rest: "files (run demoEnv (backup demoEnv 0 idleStorage (modelWith ''A'') live None)
       (?evs @ [Complete 3] @ ?eds @ [Complete 4]))
     (getHashedFileName demoEnv (getStaticStorageKey docUri)) =
   Some (stringifyStored demoEnv ''C2'' 3) \<and>
   writes (run demoEnv (backup demoEnv 0 idleStorage (modelWith ''A'') live None)
       (?evs @ [Complete 3] @ ?eds @ [Complete 4])) \<le> 2"
    unfolding w0 mf by blast
  from first rest show ?thesis by blast
qed

text \<open>
  Claim C1 as stated fails in two ways. Where the last request of the burst is
  cancelled, it performs no file-system call, so what stays persisted is the content of
  the request that was in flight (\<open>A\<close>), not that of the last request (\<open>C\<close>). And where
  the model of the last request is edited after the request and before the follow-up
  starts, the follow-up writes what the model holds then (\<open>C2\<close>), not what it held when
  the request was made (\<open>C\<close>).
\<close>

theorem cancelled_last_request_not_persisted:
  "files (run demoEnv (backup demoEnv 0 idleStorage (modelWith ''A'') live None)
       (map requestEvent [(1, modelWith ''B'', live, None), (2, modelWith ''C'', cancelled, None)]
          @ [Complete 3, Complete 4]))
     (getHashedFileName demoEnv (getStaticStorageKey docUri)) =
   Some (stringifyStored demoEnv ''A'' 0) \<and>
   stringifyStored demoEnv ''A'' 0 \<noteq> stringifyStored demoEnv ''C'' 3 \<and>
   getContent
     (run demoEnv (backup demoEnv 0 idleStorage (modelWith ''A'') live None)
        [Request 1 (modelWith ''B'') live None, Request 2 (modelWith ''C'') live None])
     (modelWith ''C'') = Inr ''C'' \<and>
   files (run demoEnv (backup demoEnv 0 idleStorage (modelWith ''A'') live None)
       [Request 1 (modelWith ''B'') live None, Request 2 (modelWith ''C'') live None,
        Edit ''C'' (Inr ''C2''), Complete 3, Complete 4])
     (getHashedFileName demoEnv (getStaticStorageKey docUri)) =
   Some (stringifyStored demoEnv ''C2'' 3) \<and>
   stringifyStored demoEnv ''C2'' 3 \<noteq> stringifyStored demoEnv ''C'' 3"
  by (simp add: demo_defs backup_defs)

subsection \<open>The follow-up\<close>

text \<open>
  Claim C2 at a concrete input. The pending slot keeps the model and the token of a
  request, not its backup id, and the follow-up calls \<^verbatim>\<open>backup\<close> with two arguments.
  Two requests for the same document, both with the backup id \<open>a.ipynb-1\<close>: the first is
  written under the hash of the backup id, the second, re-invoked from the pending
  slot, under the hash of the static storage key; the record of the backup id keeps the
  older content.
\<close>

theorem followup_drops_backup_id:
  "map_option taskBackupId (inflight (run demoEnv idleStorage
       [Request 0 (modelWith ''A'') live (Some ''a.ipynb-1''),
        Request 1 (modelWith ''B'') live (Some ''a.ipynb-1''),
        Complete 2])) = Some None \<and>
   files (run demoEnv idleStorage
       [Request 0 (modelWith ''A'') live (Some ''a.ipynb-1''),
        Request 1 (modelWith ''B'') live (Some ''a.ipynb-1''),
        Complete 2, Complete 3])
     (getHashedFileName demoEnv ''a.ipynb-1'') = Some (stringifyStored demoEnv ''A'' 0) \<and>
   files (run demoEnv idleStorage
       [Request 0 (modelWith ''A'') live (Some ''a.ipynb-1''),
        Request 1 (modelWith ''B'') live (Some ''a.ipynb-1''),
        Complete 2, Complete 3])
     (getHashedFileName demoEnv (getStaticStorageKey docUri)) = Some (stringifyStored demoEnv ''B'' 2)"
  by (simp add: demo_defs backup_defs)

text \<open>
  What the follow-up does keep: the pending slot is cleared, and a follow-up whose
  \<^verbatim>\<open>getContent()\<close> throws is logged and rejects no caller's promise.
\<close>

lemma followup_failure_is_logged:
  assumes "inflight s = Some t" and "backupRequested s = Some (m, c)"
    and "getContent s m = Inl e"
  shows "backupRequested (complete env t1 s) = None \<and>
         traced (complete env t2 (complete env t1 s)) =
           traced (complete env t1 s) @ [ErrorBackingUp e] \<and>
         rejections (complete env t2 (complete env t1 s)) = rejections (complete env t1 s)"
proof -
  let ?t1 = "\<lparr>taskModel = m, taskCancellation = c, taskBackupId = None,
              taskContent = getContent s m, startedAt = t1, caught = True\<rparr>"
  note cp = complete_pending [OF assms(1,2), of env t1]
  have st: "storeSerialized env (startedAt ?t1) (complete env t1 s) (modelFile (taskModel ?t1))
        (taskContent ?t1) (Some (taskCancellation ?t1)) (taskBackupId ?t1) =
          (Some e, complete env t1 s)"
    using assms(3) by (simp add: storeSerialized_def)
  have i: "inflight (complete env t1 s) = Some ?t1" using cp by simp
  have b: "backupRequested (complete env t1 s) = None" using cp by simp
  show ?thesis
    using b by (simp add: complete_unfold [OF i st] backupFinally_idle traceError_def)
qed

subsection \<open>Empty content\<close>

text \<open>
  Claim C10, as amended. A backup is started on an idle coordinator for a model whose
  serialized content is the empty string, and settles. If its token is not cancelled
  at the first poll, it issues exactly one file-system call, \<^verbatim>\<open>deleteFile\<close> on the
  hashed path of the computed key: no directory is created and nothing is written;
  files and log end as \<^verbatim>\<open>clearHotExit\<close> for that key leaves them, no promise is
  rejected, and unless the file system fails on that path the file is absent afterwards
  and nothing is logged, whether or not the file existed. If its token is cancelled at
  the first poll, it issues no file-system call: calls, files, log and rejections are
  what they were.
\<close>

theorem empty_content_backup_clears:
  assumes "getContent s model = Inr []" and "\<not> backingUp s"
  shows
    "(\<not> cancelledAtStart tok \<longrightarrow>
       ops (complete env t' (backup env t s model tok backupId)) =
         ops s @ [DeleteFile (getHashedFileName env (storageKey backupId (modelFile model)))] \<and>
       files (complete env t' (backup env t s model tok backupId)) =
         files (clearHotExit env s (modelFile model) backupId) \<and>
       traced (complete env t' (backup env t s model tok backupId)) =
         traced (clearHotExit env s (modelFile model) backupId) \<and>
       rejections (complete env t' (backup env t s model tok backupId)) = rejections s \<and>
       (\<not> faulty s (getHashedFileName env (storageKey backupId (modelFile model))) \<longrightarrow>
          files (complete env t' (backup env t s model tok backupId))
            (getHashedFileName env (storageKey backupId (modelFile model))) = None \<and>
          traced (complete env t' (backup env t s model tok backupId)) = traced s)) \<and>
     (cancelledAtStart tok \<longrightarrow>
       ops (complete env t' (backup env t s model tok backupId)) = ops s \<and>
       files (complete env t' (backup env t s model tok backupId)) = files s \<and>
       traced (complete env t' (backup env t s model tok backupId)) = traced s \<and>
       rejections (complete env t' (backup env t s model tok backupId)) = rejections s)"
  using assms
  by (simp add: complete_def backup_def backupFinally_def attachCatch_def clearHotExit_def
      storeSerialized_def writeToStorage_def deleteHotExitFile_def deleteFile_def
      traceError_def Let_def split: option.splits prod.splits)

theorem empty_content_backup_clears_witness:
  "ops (complete demoEnv 1 (backup demoEnv 0 backedUpStorage (modelWith []) live None)) =
     [DeleteFile (getHashedFileName demoEnv (getStaticStorageKey docUri))] \<and>
   files (complete demoEnv 1 (backup demoEnv 0 backedUpStorage (modelWith []) live None))
     (getHashedFileName demoEnv (getStaticStorageKey docUri)) = None \<and>
   ops (complete demoEnv 1 (backup demoEnv 0 backedUpStorage (modelWith []) cancelled None)) =
     ops backedUpStorage \<and>
   files (complete demoEnv 1 (backup demoEnv 0 backedUpStorage (modelWith []) cancelled None)) =
     files backedUpStorage"
proof -
  have h1: "getContent backedUpStorage (modelWith []) = Inr []"
    by (simp add: getContent_def modelWith_def backedUpStorage_def idleStorage_def)
  have h2: "\<not> backingUp backedUpStorage" by (simp add: backedUpStorage_def idleStorage_def)
  have h3: "\<not> cancelledAtStart live" by (simp add: live_def)
  have h4: "cancelledAtStart cancelled" by (simp add: cancelled_def)
  have f: "\<not> faulty backedUpStorage (getHashedFileName demoEnv (storageKey None (modelFile (modelWith []))))"
    by (simp add: backedUpStorage_def idleStorage_def)
  have k: "storageKey None (modelFile (modelWith [])) = getStaticStorageKey docUri"
    by (simp add: storageKey_def modelWith_def)
  have o: "ops backedUpStorage = []" by (simp add: backedUpStorage_def idleStorage_def)
  from empty_content_backup_clears [OF h1 h2, of live demoEnv 1 0 None] h3 f
  have a: "ops (complete demoEnv 1 (backup demoEnv 0 backedUpStorage (modelWith []) live None)) =
     ops backedUpStorage @ [DeleteFile (getHashedFileName demoEnv (getStaticStorageKey docUri))] \<and>
   files (complete demoEnv 1 (backup demoEnv 0 backedUpStorage (modelWith []) live None))
     (getHashedFileName demoEnv (getStaticStorageKey docUri)) = None"
    unfolding k by blast
  from empty_content_backup_clears [OF h1 h2, of cancelled demoEnv 1 0 None] h4
  have b: "ops (complete demoEnv 1 (backup demoEnv 0 backedUpStorage (modelWith []) cancelled None)) =
     ops backedUpStorage \<and>
   files (complete demoEnv 1 (backup demoEnv 0 backedUpStorage (modelWith []) cancelled None)) =
     files backedUpStorage"
    by blast
  from a b show ?thesis unfolding o append_Nil by blast
qed

text \<open>
  Claim C10 as stated fails for a cancelled token: \<^verbatim>\<open>writeToStorage\<close> polls the token
  before it chooses between writing and deleting, so the backup of an empty model
  deletes nothing and the earlier record stays.
\<close>

theorem cancelled_empty_backup_deletes_nothing:
  "getContent backedUpStorage (modelWith []) = Inr [] \<and>
   ops (complete demoEnv 1 (backup demoEnv 0 backedUpStorage (modelWith []) cancelled None)) = [] \<and>
   files (complete demoEnv 1 (backup demoEnv 0 backedUpStorage (modelWith []) cancelled None))
     (getHashedFileName demoEnv (getStaticStorageKey docUri)) =
   Some (stringifyStored demoEnv ''A'' 0)"
  by (simp add: backedUpStorage_def demo_defs backup_defs)

section \<open>Properties of the migration sweep\<close>

lemma foldl_removeOwned:
  "foldl removeOwned g ks =
     filter (\<lambda>x. \<not> (fst x \<in> set ks \<and> prefix KeyPrefix (fst x))) g"
proof (induction ks arbitrary: g)
  case Nil
  then show ?case by simp
next
  case (Cons k ks)
  have "foldl removeOwned g (k # ks) = foldl removeOwned (removeOwned g k) ks"
    by simp
  also have "\<dots> = filter (\<lambda>x. \<not> (fst x \<in> set ks \<and> prefix KeyPrefix (fst x))) (removeOwned g k)"
    by (rule Cons.IH)
  also have "\<dots> = filter (\<lambda>x. \<not> (fst x \<in> set (k # ks) \<and> prefix KeyPrefix (fst x))) g"
  proof (cases "prefix KeyPrefix k")
    case True
    then have "removeOwned g k = filter (\<lambda>x. k \<noteq> fst x) g"
      by (simp add: removeOwned_def AList.delete_eq case_prod_unfold)
    then show ?thesis using True by (auto intro!: filter_cong)
  next
    case False
    then have "removeOwned g k = g" by (simp add: removeOwned_def)
    then show ?thesis using False by (auto intro!: filter_cong)
  qed
  finally show ?case .
qed

lemma sweep_all_keys:
  "foldl removeOwned g (map fst g) = filter (\<lambda>x. \<not> prefix KeyPrefix (fst x)) g"
  unfolding foldl_removeOwned by (rule filter_cong) auto

lemma transferStorage_eq:
  "transferStorage s =
     s\<lparr>globalStorage := filter (\<lambda>x. \<not> prefix KeyPrefix (fst x))
          (AList.update NotebookTransferKey (SBool True) (globalStorage s))\<rparr>"
  by (simp add: transferStorage_def Let_def sweep_all_keys)

lemma transfer_key_not_owned: "\<not> prefix KeyPrefix NotebookTransferKey"
  by (simp add: KeyPrefix_def NotebookTransferKey_def)

lemma map_of_transferStorage:
  "map_of (globalStorage (transferStorage s)) k =
     (if prefix KeyPrefix k then None
      else if k = NotebookTransferKey then Some (SBool True)
      else map_of (globalStorage s) k)"
  using transfer_key_not_owned
  by (auto simp: transferStorage_eq restrict_map_def AList.update_conv'
        map_of_filter [where P = "\<lambda>k. \<not> prefix KeyPrefix k"])




section \<open>Properties of the storage tiers\<close>

subsection \<open>What each tier reads and changes\<close>

lemma contentsOfStored_truthy: "contentsOfStored d = Some c \<Longrightarrow> c \<noteq> [] \<and> truthyStored d"
  by (auto simp: contentsOfStored_def split: if_splits)

lemma checkStored_truthy:
  "checkStored s f data = Inr (Some c) \<Longrightarrow> c \<noteq> [] \<and> (\<exists>d. data = Some d \<and> truthyStored d)"
  by (auto simp: checkStored_def split: option.splits sum.splits if_splits
      dest: contentsOfStored_truthy)

lemma checkStored_cong:
  "mtime s' = mtime s \<Longrightarrow> faulty s' = faulty s \<Longrightarrow> checkStored s' f data = checkStored s f data"
proof -
  assume a: "mtime s' = mtime s" "faulty s' = faulty s"
  have "stat s' (fsPath f) = stat s (fsPath f)" using a by (simp add: stat_def)
  then show ?thesis by (simp add: checkStored_def cong: option.case_cong)
qed

lemma transferStorage_frame:
  "files (transferStorage s) = files s \<and> mtime (transferStorage s) = mtime s \<and>
   faulty (transferStorage s) = faulty s \<and> localStorage (transferStorage s) = localStorage s \<and>
   traced (transferStorage s) = traced s \<and> ops (transferStorage s) = ops s"
  by (simp add: transferStorage_def Let_def)

lemma fromFile_fst:
  "fst (getStoredContentsFromFile env s f key) =
     (case readFile s (getHashedFileName env key) of
        Inl exc \<Rightarrow> None
      | Inr text \<Rightarrow> (case parseStored env text of
                      None \<Rightarrow> None
                    | Some d \<Rightarrow> resultOf (checkStored s f (Some d))))"
  by (simp add: getStoredContentsFromFile_def readingFailed_def resultOf_def
      split: sum.splits option.splits)

lemma fromFile_snd:
  "snd (getStoredContentsFromFile env s f key) = s \<or>
   (\<exists>e. snd (getStoredContentsFromFile env s f key) = traceError e s)"
  by (auto simp: getStoredContentsFromFile_def readingFailed_def
      split: sum.splits option.splits)

lemma fromFile_hit:
  assumes "fst (getStoredContentsFromFile env s f key) = Some c"
  shows "getStoredContentsFromFile env s f key = (Some c, s) \<and> c \<noteq> []"
  using assms
  by (auto simp: getStoredContentsFromFile_def readingFailed_def
      split: sum.splits option.splits dest: checkStored_truthy)

lemma fromFile_frame:
  "files (snd (getStoredContentsFromFile env s f key)) = files s \<and>
   mtime (snd (getStoredContentsFromFile env s f key)) = mtime s \<and>
   faulty (snd (getStoredContentsFromFile env s f key)) = faulty s \<and>
   globalStorage (snd (getStoredContentsFromFile env s f key)) = globalStorage s \<and>
   localStorage (snd (getStoredContentsFromFile env s f key)) = localStorage s \<and>
   ops (snd (getStoredContentsFromFile env s f key)) = ops s"
  using fromFile_snd [of env s f key] by (auto simp: traceError_def)

lemma fromFile_fst_cong:
  "files s' = files s \<Longrightarrow> mtime s' = mtime s \<Longrightarrow> faulty s' = faulty s \<Longrightarrow>
     fst (getStoredContentsFromFile env s' f key) = fst (getStoredContentsFromFile env s f key)"
proof -
  assume a: "files s' = files s" "mtime s' = mtime s" "faulty s' = faulty s"
  have "\<And>d. checkStored s' f d = checkStored s f d"
    using a(2,3) by (rule checkStored_cong)
  moreover have "\<And>p. readFile s' p = readFile s p"
    using a by (simp add: readFile_def)
  ultimately show ?thesis by (simp add: fromFile_fst cong: option.case_cong sum.case_cong)
qed

lemma fromGlobal_snd:
  "snd (getStoredContentsFromGlobalStorage env s f key) =
     (case map_of (globalStorage s) key of
        None \<Rightarrow> s
      | Some d \<Rightarrow> if truthyStored d then transferStorage s else s)"
  by (simp add: getStoredContentsFromGlobalStorage_def Let_def split: option.splits sum.splits)

lemma fromGlobal_fst:
  "fst (getStoredContentsFromGlobalStorage env s f key) =
     resultOf (checkStored s f (map_of (globalStorage s) key))"
proof -
  have c: "\<And>d. checkStored (transferStorage s) f d = checkStored s f d"
    by (rule checkStored_cong) (simp_all add: transferStorage_frame)
  show ?thesis
    by (cases "map_of (globalStorage s) key")
       (simp_all add: getStoredContentsFromGlobalStorage_def Let_def resultOf_def c
          split: sum.splits)
qed

lemma fromGlobal_hit:
  assumes "fst (getStoredContentsFromGlobalStorage env s f key) = Some c"
  shows "c \<noteq> [] \<and> snd (getStoredContentsFromGlobalStorage env s f key) = transferStorage s"
proof -
  from assms have "checkStored s f (map_of (globalStorage s) key) = Inr (Some c)"
    by (simp add: fromGlobal_fst resultOf_def split: sum.splits)
  from checkStored_truthy [OF this] show ?thesis
    by (auto simp: fromGlobal_snd)
qed

lemma fromGlobal_fst_cong:
  "globalStorage s' = globalStorage s \<Longrightarrow> mtime s' = mtime s \<Longrightarrow> faulty s' = faulty s \<Longrightarrow>
     fst (getStoredContentsFromGlobalStorage env s' f key) =
     fst (getStoredContentsFromGlobalStorage env s f key)"
proof -
  assume a: "globalStorage s' = globalStorage s" "mtime s' = mtime s" "faulty s' = faulty s"
  have "\<And>d. checkStored s' f d = checkStored s f d"
    using a(2,3) by (rule checkStored_cong)
  then show ?thesis using a(1) by (simp add: fromGlobal_fst)
qed

lemma fromGlobal_frame:
  "files (snd (getStoredContentsFromGlobalStorage env s f key)) = files s \<and>
   mtime (snd (getStoredContentsFromGlobalStorage env s f key)) = mtime s \<and>
   faulty (snd (getStoredContentsFromGlobalStorage env s f key)) = faulty s \<and>
   localStorage (snd (getStoredContentsFromGlobalStorage env s f key)) = localStorage s"
  using transferStorage_frame [of s] by (simp add: fromGlobal_snd split: option.splits)

lemma checkStored_flag: "checkStored s f (Some (SBool b)) = Inr None"
  by (simp add: checkStored_def contentsOfStored_def)

lemma fromGlobal_miss_again:
  assumes miss: "fst (getStoredContentsFromGlobalStorage env s f key) = None"
    and g: "globalStorage s' = globalStorage (snd (getStoredContentsFromGlobalStorage env s f key))"
    and m: "mtime s' = mtime s" and fl: "faulty s' = faulty s"
  shows "fst (getStoredContentsFromGlobalStorage env s' f key) = None"
proof -
  have r: "resultOf (checkStored s f (map_of (globalStorage s) key)) = None"
    using miss by (simp add: fromGlobal_fst)
  have cong: "\<And>d. checkStored s' f d = checkStored s f d"
    using m fl by (rule checkStored_cong)
  show ?thesis
  proof (cases "map_of (globalStorage s) key")
    case None
    then have "globalStorage s' = globalStorage s" using g by (simp add: fromGlobal_snd)
    then show ?thesis using r by (simp add: fromGlobal_fst cong)
  next
    case (Some d)
    show ?thesis
    proof (cases "truthyStored d")
      case False
      then have "globalStorage s' = globalStorage s" using g Some by (simp add: fromGlobal_snd)
      then show ?thesis using r by (simp add: fromGlobal_fst cong)
    next
      case True
      then have gs: "globalStorage s' = globalStorage (transferStorage s)"
        using g Some by (simp add: fromGlobal_snd)
      have "map_of (globalStorage s') key = None \<or>
            map_of (globalStorage s') key = Some (SBool True) \<or>
            map_of (globalStorage s') key = map_of (globalStorage s) key"
        by (simp add: gs map_of_transferStorage)
      then show ?thesis
      proof (elim disjE)
        assume "map_of (globalStorage s') key = None"
        then show ?thesis by (simp add: fromGlobal_fst cong checkStored_def resultOf_def)
      next
        assume "map_of (globalStorage s') key = Some (SBool True)"
        then show ?thesis by (simp add: fromGlobal_fst cong checkStored_flag resultOf_def)
      next
        assume "map_of (globalStorage s') key = map_of (globalStorage s) key"
        then show ?thesis using r by (simp add: fromGlobal_fst cong)
      qed
    qed
  qed
qed

lemma fromLocal_unfold:
  "getStoredContentsFromLocalStorage s f key =
     (case map_of (localStorage s) key of
        None \<Rightarrow> (None, s)
      | Some w \<Rightarrow> if w = [] then (None, s)
                 else (Some w, s\<lparr>localStorage := AList.delete key (localStorage s)\<rparr>))"
  by (simp add: getStoredContentsFromLocalStorage_def)



lemma file_result_truthy:
  "truthyString (fst (getStoredContentsFromFile env s f key)) =
     (fst (getStoredContentsFromFile env s f key) \<noteq> None)"
proof (cases "fst (getStoredContentsFromFile env s f key)")
  case None
  then show ?thesis by simp
next
  case (Some c)
  from fromFile_hit [OF Some] have "c \<noteq> []" by simp
  with Some show ?thesis by simp
qed

lemma global_result_truthy:
  "truthyString (fst (getStoredContentsFromGlobalStorage env s f key)) =
     (fst (getStoredContentsFromGlobalStorage env s f key) \<noteq> None)"
proof (cases "fst (getStoredContentsFromGlobalStorage env s f key)")
  case None
  then show ?thesis by simp
next
  case (Some c)
  from fromGlobal_hit [OF Some] have "c \<noteq> []" by simp
  with Some show ?thesis by simp
qed

lemma getStoredContents_file_hit:
  assumes "fst (getStoredContentsFromFile env s f (storageKey backupId f)) = Some c"
  shows "getStoredContents env s f backupId = (Some c, s)"
proof -
  from fromFile_hit [OF assms]
  have "getStoredContentsFromFile env s f (storageKey backupId f) = (Some c, s)" "c \<noteq> []"
    by simp_all
  then show ?thesis by (simp add: getStoredContents_def Let_def)
qed

lemma getStoredContents_file_miss:
  assumes "fst (getStoredContentsFromFile env s f (storageKey backupId f)) = None"
  shows "getStoredContents env s f backupId =
     (case getStoredContentsFromGlobalStorage env
             (snd (getStoredContentsFromFile env s f (storageKey backupId f))) f
             (storageKey backupId f) of
        (result2, s2) \<Rightarrow>
          if result2 \<noteq> None then (result2, s2)
          else getStoredContentsFromLocalStorage s2 f (storageKey backupId f))"
proof -
  let ?k = "storageKey backupId f"
  obtain s1 where a: "getStoredContentsFromFile env s f ?k = (None, s1)"
    using assms by (cases "getStoredContentsFromFile env s f ?k") simp
  obtain r2 s2 where b: "getStoredContentsFromGlobalStorage env s1 f ?k = (r2, s2)"
    by (cases "getStoredContentsFromGlobalStorage env s1 f ?k")
  have t2: "truthyString r2 = (r2 \<noteq> None)"
    using global_result_truthy [of env s1 f ?k] by (simp only: b fst_conv)
  have "getStoredContents env s f backupId =
          (if truthyString r2 then (r2, s2) else getStoredContentsFromLocalStorage s2 f ?k)"
    unfolding getStoredContents_def Let_def a by (simp add: b)
  then show ?thesis by (simp only: a snd_conv b t2 prod.case)
qed


lemma globalStorage_transferStorage_cong:
  "globalStorage s' = globalStorage s \<Longrightarrow>
     globalStorage (transferStorage s') = globalStorage (transferStorage s)"
  by (simp add: transferStorage_eq)

lemma getStoredContents_from_legacy:
  assumes miss: "fst (getStoredContentsFromFile env s f (storageKey backupId f)) = None"
  shows "getStoredContents env s f backupId =
     (if fst (getStoredContentsFromGlobalStorage env
                (snd (getStoredContentsFromFile env s f (storageKey backupId f))) f
                (storageKey backupId f)) \<noteq> None
      then getStoredContentsFromGlobalStorage env
             (snd (getStoredContentsFromFile env s f (storageKey backupId f))) f
             (storageKey backupId f)
      else getStoredContentsFromLocalStorage
             (snd (getStoredContentsFromGlobalStorage env
                (snd (getStoredContentsFromFile env s f (storageKey backupId f))) f
                (storageKey backupId f))) f
             (storageKey backupId f))"
  unfolding getStoredContents_file_miss [OF miss]
  by (cases "getStoredContentsFromGlobalStorage env
       (snd (getStoredContentsFromFile env s f (storageKey backupId f))) f
       (storageKey backupId f)") simp

lemmas tier_defs = getStoredContents_def getStoredContentsFromFile_def
  getStoredContentsFromGlobalStorage_def getStoredContentsFromLocalStorage_def
  checkStored_def contentsOfStored_def readingFailed_def readFile_def stat_def
  transferStorage_def removeOwned_def NotebookTransferKey_def traceError_def
  storageKey_def getStaticStorageKey_def getHashedFileName_def pathJoin_def KeyPrefix_def
  Let_def

lemmas state_defs = staleFileStorage_def freshFileStorage_def zeroStampStorage_def
  staleWithWorkspaceStorage_def staleLegacyStorage_def freshLegacyStorage_def
  workspaceStorage_def

subsection \<open>Precedence of the tiers\<close>

text \<open>
  Claim C7. With \<open>key\<close> the storage key of the query: a hit in the hot-exit file store
  is the answer and nothing else is touched (no sweep, no workspace entry consumed,
  the state is unchanged). When the file store misses, a hit in the legacy global
  store is the answer, the state returned is the one after the migration sweep, and the
  workspace store is untouched. When both miss, a non-empty entry of the workspace
  store is the answer, the entry is gone from the state returned, and the same query
  asked again of that state finds nothing. When all three miss the answer is absent.
\<close>

theorem tiers_in_precedence_order:
  "(\<forall>c. fst (getStoredContentsFromFile env s f (storageKey backupId f)) = Some c \<longrightarrow>
        getStoredContents env s f backupId = (Some c, s)) \<and>
   (\<forall>c. fst (getStoredContentsFromFile env s f (storageKey backupId f)) = None \<and>
        fst (getStoredContentsFromGlobalStorage env s f (storageKey backupId f)) = Some c \<longrightarrow>
        fst (getStoredContents env s f backupId) = Some c \<and>
        globalStorage (snd (getStoredContents env s f backupId)) =
          globalStorage (transferStorage s) \<and>
        localStorage (snd (getStoredContents env s f backupId)) = localStorage s) \<and>
   (\<forall>w. fst (getStoredContentsFromFile env s f (storageKey backupId f)) = None \<and>
        fst (getStoredContentsFromGlobalStorage env s f (storageKey backupId f)) = None \<and>
        map_of (localStorage s) (storageKey backupId f) = Some w \<and> w \<noteq> [] \<longrightarrow>
        fst (getStoredContents env s f backupId) = Some w \<and>
        map_of (localStorage (snd (getStoredContents env s f backupId)))
          (storageKey backupId f) = None \<and>
        fst (getStoredContents env (snd (getStoredContents env s f backupId)) f backupId) = None) \<and>
   (fst (getStoredContentsFromFile env s f (storageKey backupId f)) = None \<and>
    fst (getStoredContentsFromGlobalStorage env s f (storageKey backupId f)) = None \<and>
    (map_of (localStorage s) (storageKey backupId f) = None \<or>
     map_of (localStorage s) (storageKey backupId f) = Some []) \<longrightarrow>
    fst (getStoredContents env s f backupId) = None)"
proof -
  let ?k = "storageKey backupId f"
  let ?s1 = "snd (getStoredContentsFromFile env s f ?k)"
  let ?s2 = "snd (getStoredContentsFromGlobalStorage env ?s1 f ?k)"
  note fr1 = fromFile_frame [of env s f ?k]
  have g1: "fst (getStoredContentsFromGlobalStorage env ?s1 f ?k) =
            fst (getStoredContentsFromGlobalStorage env s f ?k)"
    using fr1 by (intro fromGlobal_fst_cong) simp_all
  note fr2 = fromGlobal_frame [of env ?s1 f ?k]
  have l2: "localStorage ?s2 = localStorage s" using fr1 fr2 by simp
  have first: "getStoredContents env s f backupId = (Some c, s)"
    if "fst (getStoredContentsFromFile env s f ?k) = Some c" for c
    using that by (rule getStoredContents_file_hit)
  have second: "fst (getStoredContents env s f backupId) = Some c \<and>
        globalStorage (snd (getStoredContents env s f backupId)) =
          globalStorage (transferStorage s) \<and>
        localStorage (snd (getStoredContents env s f backupId)) = localStorage s"
    if h: "fst (getStoredContentsFromFile env s f ?k) = None \<and>
           fst (getStoredContentsFromGlobalStorage env s f ?k) = Some c" for c
  proof -
    have hit: "fst (getStoredContentsFromGlobalStorage env ?s1 f ?k) = Some c"
      using h g1 by simp
    have q: "getStoredContents env s f backupId =
               getStoredContentsFromGlobalStorage env ?s1 f ?k"
      using h hit by (simp add: getStoredContents_from_legacy)
    have "?s2 = transferStorage ?s1" using fromGlobal_hit [OF hit] by simp
    moreover have "globalStorage (transferStorage ?s1) = globalStorage (transferStorage s)"
      using fr1 by (intro globalStorage_transferStorage_cong) simp
    ultimately show ?thesis using hit l2 by (simp add: q)
  qed
  have third: "fst (getStoredContents env s f backupId) = Some w \<and>
        map_of (localStorage (snd (getStoredContents env s f backupId))) ?k = None \<and>
        fst (getStoredContents env (snd (getStoredContents env s f backupId)) f backupId) = None"
    if h: "fst (getStoredContentsFromFile env s f ?k) = None \<and>
           fst (getStoredContentsFromGlobalStorage env s f ?k) = None \<and>
           map_of (localStorage s) ?k = Some w \<and> w \<noteq> []" for w
  proof -
    let ?s3 = "?s2\<lparr>localStorage := AList.delete ?k (localStorage ?s2)\<rparr>"
    have miss2: "fst (getStoredContentsFromGlobalStorage env ?s1 f ?k) = None"
      using h g1 by simp
    have q: "getStoredContents env s f backupId = (Some w, ?s3)"
      using h miss2 l2 by (simp add: getStoredContents_from_legacy fromLocal_unfold)
    have gone: "map_of (localStorage ?s3) ?k = None"
      by (simp add: AList.delete_conv)
    let ?t1 = "snd (getStoredContentsFromFile env ?s3 f ?k)"
    let ?t2 = "snd (getStoredContentsFromGlobalStorage env ?t1 f ?k)"
    note frt = fromFile_frame [of env ?s3 f ?k]
    have a: "fst (getStoredContentsFromFile env ?s3 f ?k) = None"
    proof -
      have "fst (getStoredContentsFromFile env ?s3 f ?k) =
            fst (getStoredContentsFromFile env s f ?k)"
        using fr1 fr2 by (intro fromFile_fst_cong) simp_all
      then show ?thesis using h by simp
    qed
    have b: "fst (getStoredContentsFromGlobalStorage env ?t1 f ?k) = None"
      using miss2
    proof (rule fromGlobal_miss_again)
      show "globalStorage ?t1 = globalStorage ?s2" using frt by simp
      show "mtime ?t1 = mtime ?s1" using frt fr2 by simp
      show "faulty ?t1 = faulty ?s1" using frt fr2 by simp
    qed
    have "localStorage ?t2 = localStorage ?s3"
      using fromGlobal_frame [of env ?t1 f ?k] frt by simp
    then have c: "map_of (localStorage ?t2) ?k = None" using gone by simp
    have "fst (getStoredContents env ?s3 f backupId) = None"
      using a b c by (simp add: getStoredContents_from_legacy fromLocal_unfold)
    then show ?thesis using gone by (simp add: q)
  qed
  have fourth: "fst (getStoredContents env s f backupId) = None"
    if h: "fst (getStoredContentsFromFile env s f ?k) = None \<and>
           fst (getStoredContentsFromGlobalStorage env s f ?k) = None \<and>
           (map_of (localStorage s) ?k = None \<or> map_of (localStorage s) ?k = Some [])"
  proof -
    have miss2: "fst (getStoredContentsFromGlobalStorage env ?s1 f ?k) = None"
      using h g1 by simp
    show ?thesis
      using h miss2 l2 by (auto simp: getStoredContents_from_legacy fromLocal_unfold)
  qed
  show ?thesis using first second third fourth by blast
qed

theorem tiers_in_precedence_order_witness:
  "getStoredContents demoEnv freshFileStorage docUri None =
     (Some ''{cells:[1]}'', freshFileStorage) \<and>
   fst (getStoredContents demoEnv freshLegacyStorage docUri None) = Some ''{cells:[1]}'' \<and>
   globalStorage (snd (getStoredContents demoEnv freshLegacyStorage docUri None)) =
     globalStorage (transferStorage freshLegacyStorage) \<and>
   fst (getStoredContents demoEnv workspaceStorage docUri None) = Some ''{cells:[]}'' \<and>
   fst (getStoredContents demoEnv (snd (getStoredContents demoEnv workspaceStorage docUri None))
          docUri None) = None \<and>
   fst (getStoredContents demoEnv idleStorage docUri None) = None"
proof -
  have h1: "fst (getStoredContentsFromFile demoEnv freshFileStorage docUri
                  (storageKey None docUri)) = Some ''{cells:[1]}''"
    by (simp add: state_defs demo_defs tier_defs)
  have h2: "fst (getStoredContentsFromFile demoEnv freshLegacyStorage docUri
                  (storageKey None docUri)) = None \<and>
            fst (getStoredContentsFromGlobalStorage demoEnv freshLegacyStorage docUri
                  (storageKey None docUri)) = Some ''{cells:[1]}''"
    by (simp add: state_defs demo_defs tier_defs)
  have h3: "fst (getStoredContentsFromFile demoEnv workspaceStorage docUri
                  (storageKey None docUri)) = None \<and>
            fst (getStoredContentsFromGlobalStorage demoEnv workspaceStorage docUri
                  (storageKey None docUri)) = None \<and>
            map_of (localStorage workspaceStorage) (storageKey None docUri) = Some ''{cells:[]}'' \<and>
            ''{cells:[]}'' \<noteq> []"
    by (simp add: state_defs demo_defs tier_defs)
  from tiers_in_precedence_order [of demoEnv freshFileStorage docUri None] h1
  have a: "getStoredContents demoEnv freshFileStorage docUri None =
     (Some ''{cells:[1]}'', freshFileStorage)" by blast
  from tiers_in_precedence_order [of demoEnv freshLegacyStorage docUri None] h2
  have b: "fst (getStoredContents demoEnv freshLegacyStorage docUri None) = Some ''{cells:[1]}'' \<and>
   globalStorage (snd (getStoredContents demoEnv freshLegacyStorage docUri None)) =
     globalStorage (transferStorage freshLegacyStorage)" by blast
  from tiers_in_precedence_order [of demoEnv workspaceStorage docUri None] h3
  have c: "fst (getStoredContents demoEnv workspaceStorage docUri None) = Some ''{cells:[]}'' \<and>
   fst (getStoredContents demoEnv (snd (getStoredContents demoEnv workspaceStorage docUri None))
          docUri None) = None" by blast
  have h4: "fst (getStoredContentsFromFile demoEnv idleStorage docUri
                  (storageKey None docUri)) = None \<and>
            fst (getStoredContentsFromGlobalStorage demoEnv idleStorage docUri
                  (storageKey None docUri)) = None \<and>
            (map_of (localStorage idleStorage) (storageKey None docUri) = None \<or>
             map_of (localStorage idleStorage) (storageKey None docUri) = Some [])"
    by (simp add: state_defs demo_defs tier_defs)
  from tiers_in_precedence_order [of demoEnv idleStorage docUri None] h4
  have d: "fst (getStoredContents demoEnv idleStorage docUri None) = None" by blast
  show ?thesis using a b c d by blast
qed

subsection \<open>Staleness\<close>

text \<open>
  Claim C3, as amended. A stored record whose \<^verbatim>\<open>lastModifiedTimeMs\<close> is a non-zero
  \<open>T\<close>, for a document of scheme \<open>file\<close> whose \<^verbatim>\<open>stat\<close> succeeds with a modification
  time greater than \<open>T\<close>, is ignored by the tier that holds it: the hot-exit file store
  returns absent, logs nothing and leaves the state as it was, and the legacy global
  store returns absent. A stale file record with nothing in the global and workspace
  stores makes the whole query return absent and leave the state as it was. More
  generally the whole query returns absent when the workspace store has no entry for
  the key and each of the two stamped tiers holds for the key either nothing (no
  hot-exit file, no global entry) or such a stale record: a stale record in the file
  store only, in the global store only, or in both.
\<close>

theorem stale_backup_is_ignored:
  "(readFile s (getHashedFileName env key) = Inr stored \<and>
    parseStored env stored = Some (SEnvelope c (Some T)) \<and> T \<noteq> 0 \<and>
    scheme f = ''file'' \<and> stat s (fsPath f) = Inr mt \<and> mt > T \<longrightarrow>
    getStoredContentsFromFile env s f key = (None, s)) \<and>
   (map_of (globalStorage s) key = Some (SEnvelope c (Some T)) \<and> T \<noteq> 0 \<and>
    scheme f = ''file'' \<and> stat s (fsPath f) = Inr mt \<and> mt > T \<longrightarrow>
    fst (getStoredContentsFromGlobalStorage env s f key) = None) \<and>
   (readFile s (getHashedFileName env (storageKey backupId f)) = Inr stored \<and>
    parseStored env stored = Some (SEnvelope c (Some T)) \<and> T \<noteq> 0 \<and>
    scheme f = ''file'' \<and> stat s (fsPath f) = Inr mt \<and> mt > T \<and>
    map_of (globalStorage s) (storageKey backupId f) = None \<and>
    map_of (localStorage s) (storageKey backupId f) = None \<longrightarrow>
    getStoredContents env s f backupId = (None, s)) \<and>
   (scheme f = ''file'' \<and> stat s (fsPath f) = Inr mt \<and>
    (readFile s (getHashedFileName env (storageKey backupId f)) = Inl FileNotFound \<or>
     readFile s (getHashedFileName env (storageKey backupId f)) = Inr stored \<and>
     parseStored env stored = Some (SEnvelope c (Some T)) \<and> T \<noteq> 0 \<and> mt > T) \<and>
    (map_of (globalStorage s) (storageKey backupId f) = None \<or>
     map_of (globalStorage s) (storageKey backupId f) = Some (SEnvelope cg (Some Tg)) \<and>
     Tg \<noteq> 0 \<and> mt > Tg) \<and>
    map_of (localStorage s) (storageKey backupId f) = None \<longrightarrow>
    fst (getStoredContents env s f backupId) = None)"
proof -
  have a: "getStoredContentsFromFile env s f k = (None, s)"
    if "readFile s (getHashedFileName env k) = Inr stored \<and>
        parseStored env stored = Some (SEnvelope c (Some T)) \<and> T \<noteq> 0 \<and>
        scheme f = ''file'' \<and> stat s (fsPath f) = Inr mt \<and> mt > T" for k
    using that by (simp add: getStoredContentsFromFile_def checkStored_def)
  have b: "fst (getStoredContentsFromGlobalStorage env s f k) = None"
    if "map_of (globalStorage s) k = Some (SEnvelope cc (Some TT)) \<and> TT \<noteq> 0 \<and>
        scheme f = ''file'' \<and> stat s (fsPath f) = Inr mt \<and> mt > TT" for k cc TT
    using that by (simp add: fromGlobal_fst checkStored_def resultOf_def)
  have c: "getStoredContents env s f backupId = (None, s)"
    if h: "readFile s (getHashedFileName env (storageKey backupId f)) = Inr stored \<and>
        parseStored env stored = Some (SEnvelope c (Some T)) \<and> T \<noteq> 0 \<and>
        scheme f = ''file'' \<and> stat s (fsPath f) = Inr mt \<and> mt > T \<and>
        map_of (globalStorage s) (storageKey backupId f) = None \<and>
        map_of (localStorage s) (storageKey backupId f) = None"
  proof -
    have "getStoredContentsFromFile env s f (storageKey backupId f) = (None, s)"
      using h by (intro a) simp
    then show ?thesis
      using h by (simp add: getStoredContents_def Let_def getStoredContentsFromGlobalStorage_def
          checkStored_def getStoredContentsFromLocalStorage_def)
  qed
  have d: "fst (getStoredContents env s f backupId) = None"
    if h: "scheme f = ''file'' \<and> stat s (fsPath f) = Inr mt \<and>
      (readFile s (getHashedFileName env (storageKey backupId f)) = Inl FileNotFound \<or>
       readFile s (getHashedFileName env (storageKey backupId f)) = Inr stored \<and>
       parseStored env stored = Some (SEnvelope c (Some T)) \<and> T \<noteq> 0 \<and> mt > T) \<and>
      (map_of (globalStorage s) (storageKey backupId f) = None \<or>
       map_of (globalStorage s) (storageKey backupId f) = Some (SEnvelope cg (Some Tg)) \<and>
       Tg \<noteq> 0 \<and> mt > Tg) \<and>
      map_of (localStorage s) (storageKey backupId f) = None"
  proof -
    let ?k = "storageKey backupId f"
    from h have "readFile s (getHashedFileName env ?k) = Inl FileNotFound \<or>
       (readFile s (getHashedFileName env ?k) = Inr stored \<and>
        parseStored env stored = Some (SEnvelope c (Some T)) \<and> T \<noteq> 0 \<and>
        scheme f = ''file'' \<and> stat s (fsPath f) = Inr mt \<and> mt > T)"
      by blast
    then have f1: "getStoredContentsFromFile env s f ?k = (None, s)"
    proof
      assume "readFile s (getHashedFileName env ?k) = Inl FileNotFound"
      then show ?thesis by (simp add: getStoredContentsFromFile_def readingFailed_def)
    next
      assume "readFile s (getHashedFileName env ?k) = Inr stored \<and>
        parseStored env stored = Some (SEnvelope c (Some T)) \<and> T \<noteq> 0 \<and>
        scheme f = ''file'' \<and> stat s (fsPath f) = Inr mt \<and> mt > T"
      then show ?thesis by (rule a)
    qed
    from h have "map_of (globalStorage s) ?k = None \<or>
       (map_of (globalStorage s) ?k = Some (SEnvelope cg (Some Tg)) \<and> Tg \<noteq> 0 \<and>
        scheme f = ''file'' \<and> stat s (fsPath f) = Inr mt \<and> mt > Tg)"
      by blast
    then have g: "fst (getStoredContentsFromGlobalStorage env s f ?k) = None"
    proof
      assume "map_of (globalStorage s) ?k = None"
      then show ?thesis by (simp add: fromGlobal_fst checkStored_def resultOf_def)
    next
      assume "map_of (globalStorage s) ?k = Some (SEnvelope cg (Some Tg)) \<and> Tg \<noteq> 0 \<and>
        scheme f = ''file'' \<and> stat s (fsPath f) = Inr mt \<and> mt > Tg"
      then show ?thesis by (rule b)
    qed
    have l: "localStorage (snd (getStoredContentsFromGlobalStorage env s f ?k)) = localStorage s"
      using fromGlobal_frame [of env s f ?k] by simp
    have loc: "map_of (localStorage s) ?k = None" using h by blast
    show ?thesis
      using f1 g l loc by (simp add: getStoredContents_from_legacy fromLocal_unfold)
  qed
  show ?thesis using a b c d by blast
qed

theorem stale_backup_is_ignored_witness:
  "getStoredContentsFromFile demoEnv staleFileStorage docUri (getStaticStorageKey docUri) =
     (None, staleFileStorage) \<and>
   getStoredContents demoEnv staleFileStorage docUri None = (None, staleFileStorage) \<and>
   fst (getStoredContentsFromGlobalStorage demoEnv staleLegacyStorage docUri
          (getStaticStorageKey docUri)) = None \<and>
   fst (getStoredContents demoEnv staleLegacyStorage docUri None) = None \<and>
   fst (getStoredContents demoEnv staleBothStorage docUri None) = None"
proof -
  have k: "storageKey None docUri = getStaticStorageKey docUri" by (simp add: storageKey_def)
  have h1: "readFile staleFileStorage (getHashedFileName demoEnv (storageKey None docUri)) =
        Inr ''{contents:{cells:[1]},lastModifiedTimeMs:10}'' \<and>
      parseStored demoEnv ''{contents:{cells:[1]},lastModifiedTimeMs:10}'' =
        Some (SEnvelope (Some ''{cells:[1]}'') (Some 10)) \<and> (10::int) \<noteq> 0 \<and>
      scheme docUri = ''file'' \<and> stat staleFileStorage (fsPath docUri) = Inr 20 \<and> (20::int) > 10 \<and>
      map_of (globalStorage staleFileStorage) (storageKey None docUri) = None \<and>
      map_of (localStorage staleFileStorage) (storageKey None docUri) = None"
    by (simp add: state_defs demo_defs tier_defs)
  have h2: "map_of (globalStorage staleLegacyStorage) (getStaticStorageKey docUri) =
        Some (SEnvelope (Some ''{cells:[1]}'') (Some 10)) \<and> (10::int) \<noteq> 0 \<and>
      scheme docUri = ''file'' \<and> stat staleLegacyStorage (fsPath docUri) = Inr 20 \<and> (20::int) > 10"
    by (simp add: state_defs demo_defs tier_defs)
  note th1 = stale_backup_is_ignored [where env = demoEnv and s = staleFileStorage
      and f = docUri and backupId = None and T = 10 and mt = 20
      and c = "Some ''{cells:[1]}''" and stored = "''{contents:{cells:[1]},lastModifiedTimeMs:10}''"]
  note th2 = stale_backup_is_ignored [where env = demoEnv and s = staleLegacyStorage
      and f = docUri and key = "getStaticStorageKey docUri" and T = 10 and mt = 20
      and c = "Some ''{cells:[1]}''"]
  note th3 = stale_backup_is_ignored [where env = demoEnv and s = staleFileStorage
      and f = docUri and key = "getStaticStorageKey docUri" and T = 10 and mt = 20
      and c = "Some ''{cells:[1]}''" and stored = "''{contents:{cells:[1]},lastModifiedTimeMs:10}''"]
  note th4 = stale_backup_is_ignored [where env = demoEnv and s = staleLegacyStorage
      and f = docUri and backupId = None and Tg = 10 and mt = 20
      and cg = "Some ''{cells:[1]}''"]
  note th5 = stale_backup_is_ignored [where env = demoEnv and s = staleBothStorage
      and f = docUri and backupId = None and T = 10 and Tg = 15 and mt = 20
      and c = "Some ''{cells:[1]}''" and cg = "Some ''{cells:[]}''"
      and stored = "''{contents:{cells:[1]},lastModifiedTimeMs:10}''"]
  have h3: "readFile staleFileStorage (getHashedFileName demoEnv (getStaticStorageKey docUri)) =
        Inr ''{contents:{cells:[1]},lastModifiedTimeMs:10}''"
    using h1 by (simp only: k)
  have h4: "scheme docUri = ''file'' \<and> stat staleLegacyStorage (fsPath docUri) = Inr 20 \<and>
      readFile staleLegacyStorage (getHashedFileName demoEnv (storageKey None docUri)) =
        Inl FileNotFound \<and>
      map_of (globalStorage staleLegacyStorage) (storageKey None docUri) =
        Some (SEnvelope (Some ''{cells:[1]}'') (Some 10)) \<and> (10::int) \<noteq> 0 \<and> (20::int) > 10 \<and>
      map_of (localStorage staleLegacyStorage) (storageKey None docUri) = None"
    by (simp add: state_defs demo_defs tier_defs)
  have h5: "scheme docUri = ''file'' \<and> stat staleBothStorage (fsPath docUri) = Inr 20 \<and>
      readFile staleBothStorage (getHashedFileName demoEnv (storageKey None docUri)) =
        Inr ''{contents:{cells:[1]},lastModifiedTimeMs:10}'' \<and>
      parseStored demoEnv ''{contents:{cells:[1]},lastModifiedTimeMs:10}'' =
        Some (SEnvelope (Some ''{cells:[1]}'') (Some 10)) \<and> (10::int) \<noteq> 0 \<and> (20::int) > 10 \<and>
      map_of (globalStorage staleBothStorage) (storageKey None docUri) =
        Some (SEnvelope (Some ''{cells:[]}'') (Some 15)) \<and> (15::int) \<noteq> 0 \<and> (20::int) > 15 \<and>
      map_of (localStorage staleBothStorage) (storageKey None docUri) = None"
    by (simp add: staleBothStorage_def state_defs demo_defs tier_defs)
  from th3 h1 h3 have a: "getStoredContentsFromFile demoEnv staleFileStorage docUri
      (getStaticStorageKey docUri) = (None, staleFileStorage)"
    by blast
  from th1 h1 have b: "getStoredContents demoEnv staleFileStorage docUri None =
      (None, staleFileStorage)"
    by blast
  from th2 h2 have c: "fst (getStoredContentsFromGlobalStorage demoEnv staleLegacyStorage docUri
          (getStaticStorageKey docUri)) = None"
    by blast
  from th4 [THEN conjunct2, THEN conjunct2, THEN conjunct2] h4
  have d: "fst (getStoredContents demoEnv staleLegacyStorage docUri None) = None"
    by blast
  from th5 [THEN conjunct2, THEN conjunct2, THEN conjunct2] h5
  have e: "fst (getStoredContents demoEnv staleBothStorage docUri None) = None"
    by blast
  from a b c d e show ?thesis by blast
qed

text \<open>
  Claim C3 as stated fails in two ways. The staleness check is guarded by the truthiness
  of \<^verbatim>\<open>data.lastModifiedTimeMs\<close>, so a record stamped \<open>0\<close> is returned although the
  file is newer (modification time \<open>5\<close>). And a stale file record (stamp \<open>10\<close>, file
  modified at \<open>20\<close>) only makes its own tier return absent: the query goes on to the
  legacy tiers and returns the entry of the workspace store, which has no stamp.
\<close>

theorem stale_check_skipped_or_bypassed:
  "parseStored demoEnv ''{contents:{cells:[1]},lastModifiedTimeMs:0}'' =
     Some (SEnvelope (Some ''{cells:[1]}'') (Some 0)) \<and>
   stat zeroStampStorage (fsPath docUri) = Inr 5 \<and>
   fst (getStoredContentsFromFile demoEnv zeroStampStorage docUri (getStaticStorageKey docUri)) =
     Some ''{cells:[1]}'' \<and>
   fst (getStoredContents demoEnv zeroStampStorage docUri None) = Some ''{cells:[1]}'' \<and>
   stat staleWithWorkspaceStorage (fsPath docUri) = Inr 20 \<and>
   fst (getStoredContentsFromFile demoEnv staleWithWorkspaceStorage docUri
          (getStaticStorageKey docUri)) = None \<and>
   fst (getStoredContents demoEnv staleWithWorkspaceStorage docUri None) = Some ''{cells:[]}''"
  by (simp add: state_defs demo_defs tier_defs)

section \<open>Properties of the model loader\<close>

lemma getStoredContents_truthy:
  assumes "getStoredContents env s f backupId = (Some d, s')"
  shows "d \<noteq> []"
proof (cases "fst (getStoredContentsFromFile env s f (storageKey backupId f))")
  case (Some c)
  from fromFile_hit [OF Some] getStoredContents_file_hit [OF Some] assms
  show ?thesis by simp
next
  case None
  let ?s1 = "snd (getStoredContentsFromFile env s f (storageKey backupId f))"
  show ?thesis
  proof (cases "fst (getStoredContentsFromGlobalStorage env ?s1 f (storageKey backupId f))")
    case (Some c)
    from fromGlobal_hit [OF Some] have "c \<noteq> []" by simp
    moreover have "fst (getStoredContents env s f backupId) = Some c"
      using Some by (simp add: getStoredContents_from_legacy [OF None])
    ultimately show ?thesis using assms by simp
  next
    case n2: None
    have "getStoredContents env s f backupId =
            getStoredContentsFromLocalStorage
              (snd (getStoredContentsFromGlobalStorage env ?s1 f (storageKey backupId f))) f
              (storageKey backupId f)"
      using n2 by (simp add: getStoredContents_from_legacy [OF None])
    with assms show ?thesis
      by (auto simp: fromLocal_unfold split: option.splits if_splits)
  qed
qed

lemma loadFromFile_dirty:
  assumes "\<not> isUntitledFile env f" and "readFile s (fsPath f) = Inr onDisk"
    and "\<not> skipDirtyContentsOf opts"
    and "getStoredContents env s f (backupIdOf opts f) = (Some dirty, s')"
  shows "loadFromFile env s f possibleContents opts forVS ident =
           (loadContents env f (Some dirty) True (Some onDisk) forVS ident, s')"
proof -
  have "dirty \<noteq> []" using assms(4) by (rule getStoredContents_truthy)
  then show ?thesis using assms by (simp add: loadFromFile_def Let_def)
qed

lemma loadContents_dirty_model:
  assumes "loadContents env f (Some dirty) True (Some onDisk) forVS ident = Inr model"
    and "\<not> isUntitledFile env f"
  shows "initiallyDirty model = Some True \<and>
         trusted model = isNotebookTrusted env (asString f) onDisk"
  using assms
  by (auto simp: loadContents_def createModel_def Let_def split: sum.splits)

lemma loadContents_returns:
  assumes "parseJson env c = Some (JObj kvs)" and "map_of kvs ''cells'' = Some (JArr cs)"
    and "c \<noteq> []"
  shows "\<exists>model. loadContents env f (Some c) d tc forVS ident = Inr model"
  using assms
  by (simp add: loadContents_def parseContents_def cellsOfJson_def Let_def)

subsection \<open>Dirty content and trust\<close>

text \<open>
  Claim C8. A load of a document that is not untitled, whose file is read as \<open>onDisk\<close>,
  that does not skip dirty contents and whose query of the storage tiers finds \<open>dirty\<close>:
  every model it returns is marked initially dirty and its trust flag is the answer of
  the trust service on the on-disk content \<open>onDisk\<close>, whatever the service says of the
  dirty content. It does return a model, in the state the query left, whenever the dirty
  content parses to an object whose cells are an array.
\<close>

theorem dirty_load_trusts_disk_content:
  assumes "\<not> isUntitledFile env f" and "readFile s (fsPath f) = Inr onDisk"
    and "\<not> skipDirtyContentsOf opts"
    and "getStoredContents env s f (backupIdOf opts f) = (Some dirty, s')"
  shows
    "(\<forall>model. fst (load env s f possibleContents opts forVS ident) = Inr model \<longrightarrow>
        initiallyDirty model = Some True \<and>
        trusted model = isNotebookTrusted env (asString f) onDisk) \<and>
     (\<forall>kvs cs. parseJson env dirty = Some (JObj kvs) \<and> map_of kvs ''cells'' = Some (JArr cs) \<longrightarrow>
        (\<exists>model. load env s f possibleContents opts forVS ident = (Inr model, s')))"
proof -
  have l: "load env s f possibleContents opts forVS ident =
             (loadContents env f (Some dirty) True (Some onDisk) forVS ident, s')"
    unfolding load_def using assms by (rule loadFromFile_dirty)
  have d: "dirty \<noteq> []" using assms(4) by (rule getStoredContents_truthy)
  show ?thesis
    unfolding l using loadContents_dirty_model [OF _ assms(1)] loadContents_returns [OF _ _ d]
    by simp
qed

theorem dirty_load_trusts_disk_content_witness:
  "(\<exists>model. fst (load demoEnv freshFileStorage docUri None NoOptions False ''uuid-1'') = Inr model \<and>
       initiallyDirty model = Some True \<and> trusted model) \<and>
   isNotebookTrusted demoEnv (asString docUri) ''{cells:[]}'' \<and>
   \<not> isNotebookTrusted demoEnv (asString docUri) ''{cells:[1]}''"
proof -
  have h1: "\<not> isUntitledFile demoEnv docUri" by (simp add: demo_defs)
  have h2: "readFile freshFileStorage (fsPath docUri) = Inr ''{cells:[]}''"
    by (simp add: state_defs demo_defs tier_defs)
  have h3: "\<not> skipDirtyContentsOf NoOptions" by simp
  have h4: "getStoredContents demoEnv freshFileStorage docUri (backupIdOf NoOptions docUri) =
              (Some ''{cells:[1]}'', freshFileStorage)"
    by (simp add: state_defs demo_defs tier_defs)
  have p: "parseJson demoEnv ''{cells:[1]}'' = Some (JObj [(''cells'', JArr [JNum 1])]) \<and>
           map_of [(''cells'', JArr [JNum 1])] ''cells'' = Some (JArr [JNum 1])"
    by (simp add: demo_defs)
  have t: "isNotebookTrusted demoEnv (asString docUri) ''{cells:[]}'' \<and>
           \<not> isNotebookTrusted demoEnv (asString docUri) ''{cells:[1]}''"
    by (simp add: demo_defs)
  note th = dirty_load_trusts_disk_content [OF h1 h2 h3 h4, of None False "''uuid-1''"]
  from th p obtain model where
    m: "load demoEnv freshFileStorage docUri None NoOptions False ''uuid-1'' =
          (Inr model, freshFileStorage)"
    by blast
  then have f: "fst (load demoEnv freshFileStorage docUri None NoOptions False ''uuid-1'') = Inr model"
    by simp
  with th have "initiallyDirty model = Some True \<and>
        trusted model = isNotebookTrusted demoEnv (asString docUri) ''{cells:[]}''"
    by blast
  with f t show ?thesis by blast
qed

lemmas load_defs = load_def loadFromFile_def loadContents_def parseContents_def
  cellsOfJson_def createModel_def createEmptyCell_def remapCell_def
  extractPythonMainVersion_def clearHotExit_def writeToStorage_def deleteHotExitFile_def
  deleteFile_def

lemmas load_state_defs = backupIdStorage_def invalidStorage_def garbageStorage_def
  emptyNotebookStorage_def

text \<open>
  A backup and the load after it, on the concrete environment: the content backed up
  at time \<open>10\<close> for a document last modified at \<open>5\<close> comes back as a dirty model
  with the one imported cell.
\<close>

lemma backup_then_load_recovers:
  "fst (load demoEnv
         (run demoEnv (emptyNotebookStorage\<lparr>mtime := [fsPath docUri \<mapsto> 5]\<rparr>)
            [Request 10 (modelWith ''{cells:[1]}'') live None, Complete 11])
         docUri None NoOptions False ''uuid-1'') =
     Inr \<lparr>trusted = True, file = docUri,
          cells = [\<lparr>cell_id = ''NotebookImport#0'', cell_file = ''empty'', cell_line = 0,
                    cell_state = Finished, cell_data = Imported (JNum 1)\<rparr>],
          notebookJson = Some (JObj [(''cells'', JArr [JNum 1])]), indentAmount = Some '' '',
          pythonNumber = Some 3, initiallyDirty = Some True\<rparr>"
  by (simp add: load_state_defs load_defs demo_defs tier_defs backup_defs)

subsection \<open>A backup id as the third argument\<close>

text \<open>
  With a non-empty string as the third argument \<^verbatim>\<open>!!options\<close> is true: the load
  clears the hot-exit file of that backup id and loads the on-disk content, not dirty.
\<close>

lemma load_with_backup_id_skips:
  assumes "b \<noteq> []" and "\<not> isUntitledFile env f" and "readFile s (fsPath f) = Inr onDisk"
  shows "load env s f possibleContents (BackupId b) forVS ident =
           (loadContents env f (Some onDisk) False None forVS ident,
            clearHotExit env s f (Some b))"
  using assms by (simp add: load_def loadFromFile_def Let_def)

text \<open>
  Claim C4 at a concrete input. The hot-exit store holds a fresh record under the
  backup id \<open>a.ipynb-1\<close>, which the query of the storage tiers with that id finds. The
  load called with that id does not query the tiers: it deletes the record's file and
  returns the on-disk notebook (no cells, so one synthesized cell), not dirty.
\<close>

theorem backup_id_load_deletes_backup:
  "fst (getStoredContents demoEnv backupIdStorage docUri (Some ''a.ipynb-1'')) =
     Some ''{cells:[1]}'' \<and>
   fst (load demoEnv backupIdStorage docUri None (BackupId ''a.ipynb-1'') False ''uuid-1'') =
     Inr \<lparr>trusted = True, file = docUri, cells = [createEmptyCell demoEnv ''uuid-1''],
          notebookJson = Some (JObj [(''cells'', JArr [])]), indentAmount = Some '' '',
          pythonNumber = Some 3, initiallyDirty = Some False\<rparr> \<and>
   ops (snd (load demoEnv backupIdStorage docUri None (BackupId ''a.ipynb-1'') False ''uuid-1'')) =
     [DeleteFile (getHashedFileName demoEnv ''a.ipynb-1'')] \<and>
   files (snd (load demoEnv backupIdStorage docUri None (BackupId ''a.ipynb-1'') False ''uuid-1''))
     (getHashedFileName demoEnv ''a.ipynb-1'') = None"
  by (simp add: load_state_defs load_defs demo_defs tier_defs)

subsection \<open>Failures of a load\<close>

text \<open>
  Claim C5 at concrete inputs. On-disk content that is valid JSON without a cell list
  makes the load reject with \<^verbatim>\<open>InvalidNotebookFileError\<close>, and content that does not
  parse makes it reject with the syntax error: the promise of \<^verbatim>\<open>loadContents\<close> is
  returned from the \<^verbatim>\<open>try\<close> block without being awaited, so the \<^verbatim>\<open>catch\<close> never
  sees its rejection, and nothing is logged. A failure to read the file is caught and
  logged, and the model handed to the factory is trusted and has an empty cell list.
\<close>

theorem malformed_content_escapes_load:
  "parseJson demoEnv ''{}'' = Some (JObj []) \<and>
   load demoEnv invalidStorage docUri None NoOptions False ''uuid-1'' =
     (Inl (InvalidNotebookFileError (fsPath docUri)), invalidStorage) \<and>
   parseJson demoEnv ''not json'' = None \<and>
   load demoEnv garbageStorage docUri None NoOptions False ''uuid-1'' =
     (Inl SyntaxError, garbageStorage) \<and>
   readFile idleStorage (fsPath docUri) = Inl FileNotFound \<and>
   load demoEnv idleStorage docUri None NoOptions False ''uuid-1'' =
     (Inr \<lparr>trusted = True, file = docUri, cells = [], notebookJson = None,
           indentAmount = None, pythonNumber = None, initiallyDirty = None\<rparr>,
      idleStorage\<lparr>traced := [FailedToLoad (asString docUri) FileNotFound]\<rparr>)"
  by (simp add: load_state_defs load_defs demo_defs tier_defs)

subsection \<open>Cells of a loaded model\<close>

text \<open>
  A model returned by \<^verbatim>\<open>loadContents\<close> has at least one cell, and when the parsed
  content has no cells it has exactly the one empty code cell made from the generated
  identifier.
\<close>

lemma loadContents_cells:
  assumes "loadContents env f contents d tc forVS ident = Inr model"
  shows "cells model \<noteq> [] \<and>
         (\<forall>json. parseContents env contents = Inr json \<and> cellsOfJson f json = Inr [] \<longrightarrow>
            cells model = [createEmptyCell env ident])"
  using assms
  by (auto simp: loadContents_def createModel_def Let_def split: sum.splits if_splits)

text \<open>
  Claim C6 at concrete inputs. A load whose file cannot be read returns the fallback
  model, whose cell list is empty; a load of the on-disk content \<open>{cells:[]}\<close> with no
  hot-exit content returns a model with the one synthesized cell.
\<close>

theorem fallback_model_has_no_cells:
  "readFile idleStorage (fsPath docUri) = Inl FileNotFound \<and>
   fst (load demoEnv idleStorage docUri None NoOptions False ''uuid-1'') =
     Inr \<lparr>trusted = True, file = docUri, cells = [], notebookJson = None,
          indentAmount = None, pythonNumber = None, initiallyDirty = None\<rparr> \<and>
   fst (load demoEnv emptyNotebookStorage docUri None NoOptions False ''uuid-1'') =
     Inr \<lparr>trusted = True, file = docUri, cells = [createEmptyCell demoEnv ''uuid-1''],
          notebookJson = Some (JObj [(''cells'', JArr [])]), indentAmount = Some '' '',
          pythonNumber = Some 3, initiallyDirty = Some False\<rparr>"
  by (simp add: load_state_defs load_defs demo_defs tier_defs)

end
